theory Spec2Isabelle
  imports Main
begin

section \<open>Values, pulses and fields\<close>

text \<open>
  The repository is JavaScript. A pulse is an object \<^verbatim>\<open>{name, TV, response}\<close>; a field
  is a plain object used as a dictionary from pulse names to pulse objects. The payload
  (\<^verbatim>\<open>response\<close>) is an arbitrary JSON value, of which the code inspects whether it is
  \<^verbatim>\<open>undefined\<close>, whether it is truthy and whether it is an array, and reads a member
  where a payload turns up in the place of a pulse.
\<close>

datatype jsval =
    JUndefined
  | JNull
  | JBool bool
  | JNum int
  | JStr string
  | JArr "jsval list"
  | JObj "(string \<times> jsval) list"

text \<open>JavaScript truthiness: \<^verbatim>\<open>undefined\<close>, \<^verbatim>\<open>null\<close>, \<^verbatim>\<open>false\<close>, \<^verbatim>\<open>0\<close> and the empty
  string are falsy, every array and object is truthy.\<close>

fun truthy :: "jsval \<Rightarrow> bool" where
  "truthy JUndefined = False"
| "truthy JNull = False"
| "truthy (JBool b) = b"
| "truthy (JNum n) = (n \<noteq> 0)"
| "truthy (JStr s) = (s \<noteq> [])"
| "truthy (JArr xs) = True"
| "truthy (JObj kvs) = True"

text \<open>\<^verbatim>\<open>a || b\<close> on values.\<close>

definition js_or :: "jsval \<Rightarrow> jsval \<Rightarrow> jsval" where
  "js_or a b = (if truthy a then a else b)"

text \<open>\<^verbatim>\<open>v.k\<close> on a JSON value: the member of an object, \<^verbatim>\<open>undefined\<close> for every other
  value and for an object without that member.\<close>

definition js_member :: "string \<Rightarrow> jsval \<Rightarrow> jsval" where
  "js_member k v =
     (case v of
        JObj kvs \<Rightarrow> (case map_of kvs k of Some x \<Rightarrow> x | None \<Rightarrow> JUndefined)
      | _ \<Rightarrow> JUndefined)"

text \<open>
  One record serves for the pulses of a signal, the entries of a precondition
  (\<^verbatim>\<open>designTimeSignal\<close>, \<^verbatim>\<open>valve\<close>, \<^verbatim>\<open>triggerCondition\<close>) and the entries of a field.
  Every pulse of the repository carries a name and a string \<^verbatim>\<open>TV\<close> (\<^verbatim>\<open>"Y"\<close> or \<^verbatim>\<open>"N"\<close>);
  a missing \<^verbatim>\<open>response\<close> is \<open>JUndefined\<close>, a missing \<^verbatim>\<open>timestamp\<close> is \<open>None\<close>.
\<close>

record pulse =
  name :: string
  TV :: string
  response :: jsval
  timestamp :: "string option"

type_synonym signal = "pulse list"

text \<open>An entry \<^verbatim>\<open>{ name: n, TV: tv }\<close> as the configuration tables write it.\<close>

definition required :: "string \<Rightarrow> string \<Rightarrow> pulse" where
  "required n tv = \<lparr>name = n, TV = tv, response = JUndefined, timestamp = None\<rparr>"

text \<open>What a field yields under each name, where it yields a pulse.\<close>

type_synonym field = "string \<rightharpoonup> pulse"

subsection \<open>Field objects\<close>

text \<open>
  The clean server and \<^verbatim>\<open>utils/field.js\<close> keep a field in a plain JavaScript object: its
  own properties are the entries, and it has a prototype. An object literal and a spread
  copy have the prototype \<^verbatim>\<open>Object.prototype\<close> (\<open>None\<close>); an assignment to the name
  \<^verbatim>\<open>__proto__\<close> installs the assigned entry as the prototype (\<open>Some\<close>) instead of creating
  an own property.
\<close>

record fieldObject =
  own :: "string \<rightharpoonup> pulse"
  proto :: "pulse option"

text \<open>\<^verbatim>\<open>{}\<close>\<close>

definition emptyObject :: fieldObject where
  "emptyObject = \<lparr>own = Map.empty, proto = None\<rparr>"

text \<open>\<^verbatim>\<open>{ ...field }\<close>: a new object with the own properties of the old one.\<close>

definition spread :: "fieldObject \<Rightarrow> fieldObject" where
  "spread obj = \<lparr>own = own obj, proto = None\<rparr>"

text \<open>\<^verbatim>\<open>obj[n] = entry\<close>. The name \<^verbatim>\<open>__proto__\<close> reaches the setter of
  \<^verbatim>\<open>Object.prototype\<close> unless the object has an own property of that name.\<close>

definition setProp :: "fieldObject \<Rightarrow> string \<Rightarrow> pulse \<Rightarrow> fieldObject" where
  "setProp obj n entry =
     (if n = ''__proto__'' \<and> own obj n = None then obj\<lparr>proto := Some entry\<rparr>
      else obj\<lparr>own := (own obj)(n \<mapsto> entry)\<rparr>)"

text \<open>The names of the members of \<^verbatim>\<open>Object.prototype\<close>, which every object inherits.\<close>

definition objectPrototypeMembers :: "string list" where
  "objectPrototypeMembers =
     [''constructor'', ''__defineGetter__'', ''__defineSetter__'', ''hasOwnProperty'',
      ''__lookupGetter__'', ''__lookupSetter__'', ''isPrototypeOf'', ''propertyIsEnumerable'',
      ''toString'', ''valueOf'', ''__proto__'', ''toLocaleString'']"

text \<open>
  What \<^verbatim>\<open>obj[n]\<close> evaluates to: nothing (\<^verbatim>\<open>undefined\<close>), an entry (an own property, or
  the installed prototype under \<^verbatim>\<open>__proto__\<close>), a member of the installed prototype (its
  \<^verbatim>\<open>name\<close>, \<^verbatim>\<open>TV\<close>, \<^verbatim>\<open>response\<close> or \<^verbatim>\<open>timestamp\<close>), or a member of
  \<^verbatim>\<open>Object.prototype\<close> (a function, or \<^verbatim>\<open>Object.prototype\<close> itself under \<^verbatim>\<open>__proto__\<close>).
\<close>

datatype found = NotFound | Entry pulse | Member jsval | Builtin

definition fromObjectPrototype :: "string \<Rightarrow> found" where
  "fromObjectPrototype n = (if n \<in> set objectPrototypeMembers then Builtin else NotFound)"

definition fromPrototype :: "pulse \<Rightarrow> string \<Rightarrow> found" where
  "fromPrototype p n =
     (if n = ''name'' then Member (JStr (name p))
      else if n = ''TV'' then Member (JStr (TV p))
      else if n = ''response'' then Member (response p)
      else if n = ''timestamp''
        then (case timestamp p of
                Some t \<Rightarrow> Member (JStr t)
              | None \<Rightarrow> fromObjectPrototype n)
      else fromObjectPrototype n)"

definition getProp :: "fieldObject \<Rightarrow> string \<Rightarrow> found" where
  "getProp obj n =
     (case own obj n of
        Some entry \<Rightarrow> Entry entry
      | None \<Rightarrow>
          (case proto obj of
             Some p \<Rightarrow> if n = ''__proto__'' then Entry p else fromPrototype p n
           | None \<Rightarrow> fromObjectPrototype n))"

text \<open>\<^verbatim>\<open>if (obj[n])\<close>: objects and functions are truthy.\<close>

fun isTruthy :: "found \<Rightarrow> bool" where
  "isTruthy NotFound = False"
| "isTruthy (Entry p) = True"
| "isTruthy (Member v) = truthy v"
| "isTruthy Builtin = True"

text \<open>
  What was found, read as a pulse: an entry is one; a payload that is an object with a
  string \<^verbatim>\<open>TV\<close> reads as one; strings, functions and \<^verbatim>\<open>Object.prototype\<close> have no
  \<^verbatim>\<open>TV\<close>.
\<close>

fun asPulse :: "found \<Rightarrow> pulse option" where
  "asPulse NotFound = None"
| "asPulse (Entry p) = Some p"
| "asPulse (Member v) =
     (case js_member ''TV'' v of
        JStr tv \<Rightarrow>
          Some \<lparr>name = (case js_member ''name'' v of JStr s \<Rightarrow> s | _ \<Rightarrow> []),
                TV = tv, response = js_member ''response'' v,
                timestamp = (case js_member ''timestamp'' v of JStr s \<Rightarrow> Some s | _ \<Rightarrow> None)\<rparr>
      | _ \<Rightarrow> None)"
| "asPulse Builtin = None"

text \<open>The field that an object presents to \<^verbatim>\<open>fieldMatch\<close>: \<^verbatim>\<open>field[n]\<close> for every \<open>n\<close>.\<close>

definition lookup :: "fieldObject \<Rightarrow> field" where
  "lookup obj n = asPulse (getProp obj n)"

text \<open>\<^verbatim>\<open>obj[n]?.response\<close>\<close>

fun responseOf :: "found \<Rightarrow> jsval" where
  "responseOf NotFound = JUndefined"
| "responseOf (Entry p) = response p"
| "responseOf (Member v) = js_member ''response'' v"
| "responseOf Builtin = JUndefined"

text \<open>The entry an object stores for a name: its own property, or for \<^verbatim>\<open>__proto__\<close> the
  installed prototype.\<close>

definition held :: "fieldObject \<Rightarrow> string \<Rightarrow> pulse option" where
  "held obj n =
     (case own obj n of
        Some entry \<Rightarrow> Some entry
      | None \<Rightarrow> if n = ''__proto__'' then proto obj else None)"


section \<open>Field operations\<close>

subsection \<open>fieldMatch\<close>

text \<open>
  \<^verbatim>\<open>clean_cpux_server.js\<close> (the same body stands in \<^verbatim>\<open>enhanced_cpux_server.js\<close> and in the
  corrected object server):
  \<^verbatim>\<open>requiredSignal.every(r => { const fp = field[r.name]; return fp && fp.TV === r.TV; })\<close>
\<close>

definition fieldMatch :: "field \<Rightarrow> signal \<Rightarrow> bool" where
  "fieldMatch fld requiredSignal =
     list_all (\<lambda>requiredPulse.
        case fld (name requiredPulse) of
          None \<Rightarrow> False
        | Some fieldPulse \<Rightarrow> TV fieldPulse = TV requiredPulse) requiredSignal"


text \<open>
  \<^verbatim>\<open>enhanced_cpux_server.js\<close>, top level: the same test written as a loop that returns
  \<^verbatim>\<open>false\<close> at the first required pulse that is absent or has another \<^verbatim>\<open>TV\<close>.
\<close>

fun fieldMatch_enhanced :: "field \<Rightarrow> signal \<Rightarrow> bool" where
  "fieldMatch_enhanced fld [] = True"
| "fieldMatch_enhanced fld (requiredPulse # rest) =
     (case fld (name requiredPulse) of
        None \<Rightarrow> False
      | Some fieldPulse \<Rightarrow>
          if TV fieldPulse \<noteq> TV requiredPulse then False
          else fieldMatch_enhanced fld rest)"

definition checkSignalMatch :: "signal \<Rightarrow> field \<Rightarrow> bool" where
  "checkSignalMatch designTimeSignal currentField =
     fieldMatch_enhanced currentField designTimeSignal"

subsection \<open>fieldAbsorb\<close>

text \<open>
  \<^verbatim>\<open>clean_cpux_server.js\<close>: \<^verbatim>\<open>const updatedField = { ...currentField }\<close>, then for every
  incoming pulse \<^verbatim>\<open>updatedField[pulse.name] = {name, TV, response, timestamp}\<close>. The time
  stamp is read from the clock; the reading is the parameter \<open>now\<close>.
\<close>

definition entryOf :: "string \<Rightarrow> pulse \<Rightarrow> pulse" where
  "entryOf now p =
     \<lparr>name = name p, TV = TV p, response = js_or (response p) JNull, timestamp = Some now\<rparr>"

fun absorbPulses :: "string \<Rightarrow> signal \<Rightarrow> fieldObject \<Rightarrow> fieldObject" where
  "absorbPulses now [] updatedField = updatedField"
| "absorbPulses now (p # incomingSignal) updatedField =
     absorbPulses now incomingSignal (setProp updatedField (name p) (entryOf now p))"

definition fieldAbsorb :: "string \<Rightarrow> signal \<Rightarrow> fieldObject \<Rightarrow> fieldObject" where
  "fieldAbsorb now incomingSignal currentField =
     absorbPulses now incomingSignal (spread currentField)"

text \<open>
  The field of \<^verbatim>\<open>enhanced_cpux_server.js\<close> is a plain object as well, and it always has
  the prototype \<^verbatim>\<open>Object.prototype\<close>. Its \<^verbatim>\<open>fieldAbsorb\<close> updates in place what it finds
  under the name of a pulse. Under the name of a member that every object inherits it
  finds that member (a function of \<^verbatim>\<open>Object.prototype\<close>, or \<^verbatim>\<open>Object.prototype\<close> itself under
  \<^verbatim>\<open>__proto__\<close>), unless the field has an own property of the name, and writes the \<^verbatim>\<open>TV\<close>
  and the response on it. These members belong to the process, not to a field object: a
  spread copy and \<^verbatim>\<open>delete\<close> leave them as they are. \<open>entries\<close> are the own properties of
  the field object; \<open>builtins\<close> holds, by member name, what has been written on the
  inherited members. What a write on \<^verbatim>\<open>Object.prototype\<close> itself then does to the other
  objects of the process is not followed.
\<close>

record enhancedField =
  entries :: "string \<rightharpoonup> pulse"
  builtins :: "string \<rightharpoonup> pulse"

text \<open>\<^verbatim>\<open>{}\<close> in a process in which nothing has been written on the inherited members.\<close>

definition emptyField :: enhancedField where
  "emptyField = \<lparr>entries = Map.empty, builtins = Map.empty\<rparr>"

text \<open>What \<^verbatim>\<open>field[n]\<close> yields as a pulse: the own entry, or for the name of an inherited
  member what has been written on that member (without a written \<^verbatim>\<open>TV\<close> it is no pulse).\<close>

definition elookup :: "enhancedField \<Rightarrow> field" where
  "elookup f n =
     (case entries f n of
        Some entry \<Rightarrow> Some entry
      | None \<Rightarrow> if n \<in> set objectPrototypeMembers then builtins f n else None)"

text \<open>
  \<^verbatim>\<open>fieldAbsorb(incomingSignal, currentField, consume = true)\<close> of the enhanced server.
  What is found under the name of the pulse gets the incoming \<^verbatim>\<open>TV\<close>; its response is
  replaced when \<open>consume\<close> holds and accumulated into an array otherwise; a response that
  is \<^verbatim>\<open>undefined\<close> leaves the stored one. Where nothing is found, an entry is created. The
  code updates the entry object in place, which the shallow copy shares with
  \<open>currentField\<close>; every caller assigns the result back to the only reference it holds,
  so the model returns the updated field.
\<close>

definition mergeResponse :: "bool \<Rightarrow> jsval \<Rightarrow> jsval \<Rightarrow> jsval" where
  "mergeResponse consume stored incoming =
     (if incoming \<noteq> JUndefined then
        (if consume then incoming
         else (case stored of
                 JArr xs \<Rightarrow> JArr (xs @ [incoming])
               | _ \<Rightarrow> if truthy stored then JArr [stored, incoming] else incoming))
      else stored)"

definition updateInPlace :: "bool \<Rightarrow> pulse \<Rightarrow> pulse \<Rightarrow> pulse" where
  "updateInPlace consume incomingPulse existing =
     existing\<lparr>TV := TV incomingPulse,
       response := mergeResponse consume (response existing) (response incomingPulse)\<rparr>"

fun fieldAbsorb_enhanced :: "string \<Rightarrow> signal \<Rightarrow> enhancedField \<Rightarrow> bool \<Rightarrow> enhancedField" where
  "fieldAbsorb_enhanced now [] updatedField consume = updatedField"
| "fieldAbsorb_enhanced now (incomingPulse # incomingSignal) updatedField consume =
     fieldAbsorb_enhanced now incomingSignal
       (case entries updatedField (name incomingPulse) of
          Some existing \<Rightarrow>
            updatedField\<lparr>entries := (entries updatedField)(name incomingPulse \<mapsto>
              updateInPlace consume incomingPulse existing)\<rparr>
        | None \<Rightarrow>
            if name incomingPulse \<in> set objectPrototypeMembers then
              updatedField\<lparr>builtins := (builtins updatedField)(name incomingPulse \<mapsto>
                updateInPlace consume incomingPulse
                  (case builtins updatedField (name incomingPulse) of
                     Some written \<Rightarrow> written
                   | None \<Rightarrow> \<lparr>name = name incomingPulse, TV = [], response = JUndefined,
                               timestamp = None\<rparr>))\<rparr>
            else
              updatedField\<lparr>entries := (entries updatedField)(name incomingPulse \<mapsto>
                \<lparr>name = name incomingPulse, TV = TV incomingPulse,
                 response = js_or (response incomingPulse) JNull, timestamp = Some now\<rparr>)\<rparr>)
       consume"

text \<open>
  \<^verbatim>\<open>utils/field.js\<close>, \<^verbatim>\<open>fieldAbsorb(signal, field, consume = true)\<close>: a spread copy, into
  which an entry (without time stamp) is written under the guard
  \<^verbatim>\<open>if (consume || !updated[pulse.name])\<close>.
\<close>

definition entryOf_utils :: "pulse \<Rightarrow> pulse" where
  "entryOf_utils p =
     \<lparr>name = name p, TV = TV p, response = js_or (response p) JNull, timestamp = None\<rparr>"

fun absorbPulses_utils :: "signal \<Rightarrow> fieldObject \<Rightarrow> bool \<Rightarrow> fieldObject" where
  "absorbPulses_utils [] updated consume = updated"
| "absorbPulses_utils (p # sig) updated consume =
     absorbPulses_utils sig
       (if consume \<or> \<not> isTruthy (getProp updated (name p))
        then setProp updated (name p) (entryOf_utils p)
        else updated)
       consume"


text \<open>The truth value a field holds for a name, if any.\<close>

definition tvOf :: "field \<Rightarrow> string \<Rightarrow> string option" where
  "tvOf fld n = map_option TV (fld n)"

text \<open>The last pulse of a signal with a given name (the latest write of that name).\<close>

definition lastNamed :: "string \<Rightarrow> signal \<Rightarrow> pulse option" where
  "lastNamed n sig = find (\<lambda>p. name p = n) (rev sig)"

section \<open>The orchestrator of \<^verbatim>\<open>clean_cpux_server.js\<close>\<close>

subsection \<open>Steps, requests and replies\<close>

text \<open>
  A step of \<^verbatim>\<open>CPUXDefinition.sequence\<close>. The step id is a number that the code only ever
  prints into template strings, so it is kept in its printed form. The steps of the clean
  server have no \<^verbatim>\<open>source\<close>, \<^verbatim>\<open>consumeSignal\<close> or \<^verbatim>\<open>targetConsumption\<close>; those members
  belong to the steps of the enhanced server and are not read by the clean one.
\<close>

record step =
  stepId :: string
  type :: string
  intention :: string
  designTimeSignal :: signal
  source :: string
  target :: string
  consumeSignal :: bool
  targetConsumption :: "string option"

text \<open>The body of a \<^verbatim>\<open>POST .../execute\<close> request. Members that a server does not send are
  \<open>None\<close>.\<close>

record payload =
  p_cpuxId :: string
  p_stepId :: string
  p_intention :: string
  p_signal :: signal
  p_source :: "string option"
  p_target :: string
  p_consumeSignal :: "bool option"
  p_targetConsumption :: "string option"
  dnInstanceId :: "string option"

datatype request =
    Execute payload
  | Poll string string

text \<open>
  What \<^verbatim>\<open>await axios.post(url, body)\<close> gives: it throws (no connection, a status outside
  2xx), or it returns a response of whose \<^verbatim>\<open>data\<close> the code reads the members
  \<^verbatim>\<open>status\<close>, \<^verbatim>\<open>ready\<close> (for its truthiness) and \<^verbatim>\<open>signal\<close>.
\<close>

record data =
  d_status :: "string option"
  d_ready :: bool
  d_signal :: signal

datatype reply = Threw | Replied data

text \<open>
  The remote nodes are the environment. It has a state of its own, of any type \<open>'e\<close>,
  and answers a request to a URL from that state: \<open>post e url body\<close> is the reply
  together with the environment's next state. Nothing is assumed about it.
\<close>

type_synonym 'e post = "'e \<Rightarrow> string \<Rightarrow> request \<Rightarrow> reply \<times> 'e"

text \<open>The three module variables \<^verbatim>\<open>cpuxField\<close>, \<^verbatim>\<open>executionLog\<close> (a \<^verbatim>\<open>Set\<close> of step keys)
  and \<^verbatim>\<open>memberStatus\<close> (a \<^verbatim>\<open>Map\<close> from instance ids to status strings). The clean server
  holds the field as an object; the type of the field is a parameter.\<close>

record 'f cpux =
  cpuxField :: 'f
  executionLog :: "string set"
  memberStatus :: "string \<rightharpoonup> string"

definition targetRegistry :: "string \<rightharpoonup> string" where
  "targetRegistry =
     [''O1'' \<mapsto> ''http://localhost:4000'',
      ''DN1'' \<mapsto> ''http://localhost:5001'',
      ''DN2'' \<mapsto> ''http://localhost:5001'',
      ''DN3'' \<mapsto> ''http://localhost:5001'',
      ''DN4'' \<mapsto> ''http://localhost:5001'']"

text \<open>\<^verbatim>\<open>`${memberUrl}/execute`\<close> and the like, where the URL of an unregistered target
  prints as \<^verbatim>\<open>undefined\<close>.\<close>

definition endpoint :: "string option \<Rightarrow> string \<Rightarrow> string" where
  "endpoint memberUrl path = (case memberUrl of None \<Rightarrow> ''undefined'' | Some u \<Rightarrow> u) @ path"

text \<open>\<^verbatim>\<open>`${step.stepId}:${step.intention}:${step.target}`\<close>\<close>

definition stepKey :: "step \<Rightarrow> string" where
  "stepKey s = stepId s @ '':'' @ intention s @ '':'' @ target s"

text \<open>\<^verbatim>\<open>`${contextId}:${step.stepId}:${step.target}`\<close>\<close>

definition instanceIdOf :: "string \<Rightarrow> step \<Rightarrow> string" where
  "instanceIdOf contextId s = contextId @ '':'' @ stepId s @ '':'' @ target s"

definition initializeDNStatus :: "step list \<Rightarrow> string \<Rightarrow> (string \<rightharpoonup> string) \<Rightarrow> (string \<rightharpoonup> string)" where
  "initializeDNStatus sequence contextId ms =
     foldl (\<lambda>m s. if type s = ''dn'' then m(instanceIdOf contextId s \<mapsto> ''ready'') else m)
       ms sequence"

subsection \<open>Executing one step\<close>

definition signalToSend :: "fieldObject \<Rightarrow> step \<Rightarrow> signal" where
  "signalToSend fld s =
     map (\<lambda>pulseSpec.
        \<lparr>name = name pulseSpec, TV = TV pulseSpec,
         response = js_or (responseOf (getProp fld (name pulseSpec))) JNull,
         timestamp = None\<rparr>) (designTimeSignal s)"

definition payloadOf :: "string \<Rightarrow> fieldObject \<Rightarrow> step \<Rightarrow> payload" where
  "payloadOf ctx fld s =
     \<lparr>p_cpuxId = ctx, p_stepId = stepId s, p_intention = intention s,
      p_signal = signalToSend fld s, p_source = None, p_target = target s,
      p_consumeSignal = None, p_targetConsumption = None,
      dnInstanceId = (if type s = ''dn'' then Some (instanceIdOf ctx s) else None)\<rparr>"

text \<open>
  \<^verbatim>\<open>executeObjectStep\<close>: the step counts as executed when the request does not throw; the
  response is not looked at.
\<close>

definition executeObjectStep :: "'e post \<Rightarrow> step \<Rightarrow> payload \<Rightarrow> 'e \<Rightarrow> bool \<times> 'e" where
  "executeObjectStep post s pl e =
     (case post e (endpoint (targetRegistry (target s)) ''/execute'') (Execute pl) of
        (Replied d, e') \<Rightarrow> (True, e')
      | (Threw, e') \<Rightarrow> (False, e'))"

text \<open>
  \<^verbatim>\<open>executeDNStep\<close>: nothing is sent unless the recorded status of the instance is
  \<^verbatim>\<open>'ready'\<close>; the instance is marked \<^verbatim>\<open>'busy'\<close> when the node answers \<^verbatim>\<open>'accepted'\<close>.
\<close>

definition executeDNStep ::
  "'e post \<Rightarrow> step \<Rightarrow> payload \<Rightarrow> (string \<rightharpoonup> string) \<Rightarrow> 'e \<Rightarrow> bool \<times> (string \<rightharpoonup> string) \<times> 'e" where
  "executeDNStep post s pl ms e =
     (case dnInstanceId pl of
        None \<Rightarrow> (False, ms, e)
      | Some iid \<Rightarrow>
          if ms iid \<noteq> Some ''ready'' then (False, ms, e)
          else
            (case post e (endpoint (targetRegistry (target s)) ''/execute'') (Execute pl) of
               (Replied d, e') \<Rightarrow>
                 if d_status d = Some ''accepted'' then (True, ms(iid \<mapsto> ''busy''), e')
                 else (False, ms, e')
             | (Threw, e') \<Rightarrow> (False, ms, e')))"

definition executeFinalStep :: "step \<Rightarrow> signal \<Rightarrow> bool" where
  "executeFinalStep s sig = True"

definition executeStep ::
  "'e post \<Rightarrow> string \<Rightarrow> step \<Rightarrow> fieldObject cpux \<Rightarrow> 'e \<Rightarrow> bool \<times> fieldObject cpux \<times> 'e" where
  "executeStep post ctx s st e =
     (let pl = payloadOf ctx (cpuxField st) s in
      if type s = ''object'' then
        (case executeObjectStep post s pl e of (ok, e') \<Rightarrow> (ok, st, e'))
      else if type s = ''dn'' then
        (case executeDNStep post s pl (memberStatus st) e of
           (ok, ms', e') \<Rightarrow> (ok, st\<lparr>memberStatus := ms'\<rparr>, e'))
      else if type s = ''final'' then
        (executeFinalStep s (p_signal pl), st, e)
      else (False, st, e))"

subsection \<open>A pass over the sequence\<close>

text \<open>
  The body of the loop of \<^verbatim>\<open>executeSequencePass\<close> for one step, on the counter
  \<^verbatim>\<open>passActivations\<close>, the module variables and the environment.
\<close>

definition passStep ::
  "'e post \<Rightarrow> string \<Rightarrow> step \<Rightarrow> nat \<times> fieldObject cpux \<times> 'e \<Rightarrow> nat \<times> fieldObject cpux \<times> 'e" where
  "passStep post ctx s acc =
     (case acc of (passActivations, st, e) \<Rightarrow>
        if stepKey s \<in> executionLog st then (passActivations, st, e)
        else if \<not> fieldMatch (lookup (cpuxField st)) (designTimeSignal s)
          then (passActivations, st, e)
        else
          (case executeStep post ctx s st e of
             (executed, st', e') \<Rightarrow>
               if executed then
                 (passActivations + 1,
                  st'\<lparr>executionLog := insert (stepKey s) (executionLog st')\<rparr>, e')
               else (passActivations, st', e')))"

definition executeSequencePass ::
  "'e post \<Rightarrow> string \<Rightarrow> step list \<Rightarrow> fieldObject cpux \<Rightarrow> 'e \<Rightarrow> nat \<times> fieldObject cpux \<times> 'e" where
  "executeSequencePass post ctx sequence st e =
     foldl (\<lambda>acc s. passStep post ctx s acc) (0, st, e) sequence"

subsection \<open>The intake endpoint \<^verbatim>\<open>POST /cpux/intention\<close>\<close>

record emission =
  em_cpuxId :: string
  em_intention :: string
  em_signal :: signal
  em_dnInstanceId :: "string option"
  em_objectInstanceId :: "string option"
  em_source :: string

datatype intake_response =
    WrongContext
  | Received nat nat string

text \<open>An optional string as a condition (\<^verbatim>\<open>if (id)\<close>, \<^verbatim>\<open>id || ...\<close>): \<^verbatim>\<open>undefined\<close>,
  \<^verbatim>\<open>null\<close> and the empty string are falsy.\<close>

definition given :: "string option \<Rightarrow> string option" where
  "given x = (case x of None \<Rightarrow> None | Some s \<Rightarrow> if s = [] then None else Some s)"

text \<open>
  The handler. A request of another context is answered with status 400 before anything
  is touched. Otherwise the signal is absorbed, the instance named by \<^verbatim>\<open>dnInstanceId\<close> is
  set to \<^verbatim>\<open>'ready'\<close>, and \<^verbatim>\<open>executeSequencePass\<close> is called once;
  \<^verbatim>\<open>checkCompletion\<close>, called when the pass activated nothing, only prints. The answer
  carries the number of pulses, the number of activations and
  \<^verbatim>\<open>dnInstanceId || objectInstanceId || 'unknown'\<close>.
\<close>

definition cpux_intention ::
  "'e post \<Rightarrow> string \<Rightarrow> step list \<Rightarrow> string \<Rightarrow> emission \<Rightarrow> fieldObject cpux \<Rightarrow> 'e
     \<Rightarrow> intake_response \<times> fieldObject cpux \<times> 'e" where
  "cpux_intention post ctx sequence now body st e =
     (let instanceId =
            (case given (em_dnInstanceId body) of
               Some d \<Rightarrow> d
             | None \<Rightarrow>
                 (case given (em_objectInstanceId body) of
                    Some ob \<Rightarrow> ob
                  | None \<Rightarrow> ''unknown'')) in
      if em_cpuxId body \<noteq> ctx then (WrongContext, st, e)
      else
        (let st1 = st\<lparr>cpuxField := fieldAbsorb now (em_signal body) (cpuxField st)\<rparr>;
             st2 = (case given (em_dnInstanceId body) of
                      Some d \<Rightarrow> st1\<lparr>memberStatus := (memberStatus st1)(d \<mapsto> ''ready'')\<rparr>
                    | None \<Rightarrow> st1)
         in case executeSequencePass post ctx sequence st2 e of
              (activations, st3, e') \<Rightarrow>
                (Received (length (em_signal body)) activations instanceId, st3, e')))"

subsection \<open>The two halves of a visit, and passes that overlap\<close>

text \<open>
  \<^verbatim>\<open>executeSequencePass\<close> is an \<^verbatim>\<open>async\<close> function. A visit of a step runs without
  interruption up to \<^verbatim>\<open>await axios.post(...)\<close> in \<^verbatim>\<open>executeObjectStep\<close> or
  \<^verbatim>\<open>executeDNStep\<close>; there the pass is suspended until the answer arrives, and other
  handlers run meanwhile. \<open>beginStep\<close> is the part of the visit before the request:
  the step is skipped, or executed without a request (\<^verbatim>\<open>'final'\<close>), or a request is sent.
  \<open>endStep\<close> is the part after the answer, on the module variables as they are then.
\<close>

datatype begun = Skipped | Executed | Sent string request

definition beginStep :: "string \<Rightarrow> step \<Rightarrow> fieldObject cpux \<Rightarrow> begun" where
  "beginStep ctx s st =
     (if stepKey s \<in> executionLog st then Skipped
      else if \<not> fieldMatch (lookup (cpuxField st)) (designTimeSignal s) then Skipped
      else if type s = ''object'' then
        Sent (endpoint (targetRegistry (target s)) ''/execute'')
             (Execute (payloadOf ctx (cpuxField st) s))
      else if type s = ''dn'' then
        (if memberStatus st (instanceIdOf ctx s) \<noteq> Some ''ready'' then Skipped
         else Sent (endpoint (targetRegistry (target s)) ''/execute'')
                   (Execute (payloadOf ctx (cpuxField st) s)))
      else if type s = ''final'' then Executed
      else Skipped)"

definition logged :: "step \<Rightarrow> 'f cpux \<Rightarrow> 'f cpux" where
  "logged s st = st\<lparr>executionLog := insert (stepKey s) (executionLog st)\<rparr>"

definition endStep ::
  "string \<Rightarrow> step \<Rightarrow> reply \<Rightarrow> nat \<times> fieldObject cpux \<Rightarrow> nat \<times> fieldObject cpux" where
  "endStep ctx s r acc =
     (case acc of (passActivations, st) \<Rightarrow>
        (case r of
           Threw \<Rightarrow> (passActivations, st)
         | Replied d \<Rightarrow>
             if type s = ''dn'' then
               (if d_status d = Some ''accepted''
                then (passActivations + 1,
                      logged s (st\<lparr>memberStatus :=
                                   (memberStatus st)(instanceIdOf ctx s \<mapsto> ''busy'')\<rparr>))
                else (passActivations, st))
             else (passActivations + 1, logged s st)))"

text \<open>
  The answers after which the step counts as executed: \<^verbatim>\<open>executeObjectStep\<close> returns
  \<^verbatim>\<open>true\<close> whenever the request does not throw, \<^verbatim>\<open>executeDNStep\<close> when the status of the
  response is \<^verbatim>\<open>'accepted'\<close>.
\<close>

definition dispatched :: "step \<Rightarrow> reply \<Rightarrow> bool" where
  "dispatched s r =
     (case r of
        Threw \<Rightarrow> False
      | Replied d \<Rightarrow> if type s = ''dn'' then d_status d = Some ''accepted'' else True)"

text \<open>
  A call of \<^verbatim>\<open>executeSequencePass\<close> in progress: the step whose answer it awaits, if
  any, the steps still to visit, and its counter. The orchestrator is its module
  variables and the passes in progress.
\<close>

record pass =
  awaiting :: "step option"
  remaining :: "step list"
  activations :: nat





text \<open>The module variables after the handler of an emission has absorbed the signal and
  released the instance, when it calls \<^verbatim>\<open>executeSequencePass\<close>.\<close>

definition absorbed :: "string \<Rightarrow> emission \<Rightarrow> fieldObject cpux \<Rightarrow> fieldObject cpux" where
  "absorbed now body st =
     (let st1 = st\<lparr>cpuxField := fieldAbsorb now (em_signal body) (cpuxField st)\<rparr>
      in case given (em_dnInstanceId body) of
           Some d \<Rightarrow> st1\<lparr>memberStatus := (memberStatus st1)(d \<mapsto> ''ready'')\<rparr>
         | None \<Rightarrow> st1)"




subsection \<open>The requests of a pass\<close>

text \<open>
  An environment that also keeps the list of the requests it was sent, each with its
  answer. Run in it, a pass yields the requests it sends.
\<close>

type_synonym exchange = "string \<times> request \<times> reply"

definition recording :: "'e post \<Rightarrow> ('e \<times> exchange list) post" where
  "recording post el url body =
     (case post (fst el) url body of
        (r, e') \<Rightarrow> (r, (e', snd el @ [(url, body, r)])))"


subsection \<open>What a pass may change\<close>

text \<open>The relation between the module variables before and after a pass that the proofs
  below establish: the field is the same, the log has only grown, and the status of an
  instance is the same or went from \<^verbatim>\<open>'ready'\<close> to \<^verbatim>\<open>'busy'\<close>.\<close>

definition grows :: "'f cpux \<Rightarrow> 'f cpux \<Rightarrow> bool" where
  "grows st st' \<longleftrightarrow> cpuxField st' = cpuxField st \<and> executionLog st \<subseteq> executionLog st'
     \<and> (\<forall>i. memberStatus st' i = memberStatus st i
            \<or> (memberStatus st i = Some ''ready'' \<and> memberStatus st' i = Some ''busy''))"

section \<open>The node server of \<^verbatim>\<open>enhanced_dn_server.js\<close>\<close>

text \<open>
  \<^verbatim>\<open>DN_CONTAINERS\<close>: each node type has a valve and a handler. The handlers are the
  business logic of the nodes; the server only starts them, so the table keeps the valves.
\<close>

definition DN_CONTAINERS :: "string \<rightharpoonup> signal" where
  "DN_CONTAINERS =
     [''DN1'' \<mapsto> [required ''start_license_request'' ''Y''],
      ''DN2'' \<mapsto> [required ''personal_detail'' ''Y''],
      ''DN3'' \<mapsto> [required ''driver_points'' ''Y''],
      ''DN4'' \<mapsto> [required ''expiry_date'' ''Y'']]"

text \<open>
  An entry of \<^verbatim>\<open>activeInstances\<close>. Of the members of a task only \<^verbatim>\<open>status\<close> is ever
  tested; the clock readings and error texts are left out.
\<close>

record task =
  status :: string
  t_cpuxId :: string
  t_dnType :: string

text \<open>
  The server's state: the map \<^verbatim>\<open>activeInstances\<close>, and the calls of
  \<^verbatim>\<open>processAsyncAndEmit\<close> that were started and have not yet finished, by instance id.
  JavaScript keeps the latter as pending promises; the model lists them.
\<close>

record dn_server =
  activeInstances :: "string \<rightharpoonup> task"
  inFlight :: "string list"

datatype execute_response =
    UnknownDN
  | Rejected string string
  | Accepted string

text \<open>\<^verbatim>\<open>valve.every(r => signal.some(p => p.name === r.name && p.TV === r.TV))\<close>\<close>

definition canProcess :: "signal \<Rightarrow> signal \<Rightarrow> bool" where
  "canProcess valve sig =
     list_all (\<lambda>requiredPulse.
        list_ex (\<lambda>incomingPulse.
           name incomingPulse = name requiredPulse \<and> TV incomingPulse = TV requiredPulse) sig)
       valve"

text \<open>\<^verbatim>\<open>dnInstanceId || `${cpuxId}:${stepId}:${target}`\<close>\<close>

definition requestInstanceId :: "payload \<Rightarrow> string" where
  "requestInstanceId body =
     (case given (dnInstanceId body) of
        Some d \<Rightarrow> d
      | None \<Rightarrow> p_cpuxId body @ '':'' @ p_stepId body @ '':'' @ p_target body)"

text \<open>\<^verbatim>\<open>activeInstances.has(id) && activeInstances.get(id).status === 'running'\<close>\<close>

definition isRunning :: "dn_server \<Rightarrow> string \<Rightarrow> bool" where
  "isRunning srv instanceId =
     (case activeInstances srv instanceId of
        None \<Rightarrow> False
      | Some existingTask \<Rightarrow> status existingTask = ''running'')"

text \<open>
  \<^verbatim>\<open>POST /execute\<close>. The checks come in the order of the code: unknown target (status
  400), instance already running, valve. Only an accepted request changes the state: it
  records the instance as \<^verbatim>\<open>'running'\<close> and starts \<^verbatim>\<open>processAsyncAndEmit\<close> without
  awaiting it.
\<close>

definition dn_execute :: "payload \<Rightarrow> dn_server \<Rightarrow> execute_response \<times> dn_server" where
  "dn_execute body srv =
     (case DN_CONTAINERS (p_target body) of
        None \<Rightarrow> (UnknownDN, srv)
      | Some valve \<Rightarrow>
          (let instanceId = requestInstanceId body in
           if isRunning srv instanceId
           then (Rejected ''instance_busy'' instanceId, srv)
           else if \<not> canProcess valve (p_signal body)
           then (Rejected ''valve_conditions_not_met'' instanceId, srv)
           else
             (Accepted instanceId,
              srv\<lparr>activeInstances := (activeInstances srv)(instanceId \<mapsto>
                      \<lparr>status = ''running'', t_cpuxId = p_cpuxId body,
                       t_dnType = p_target body\<rparr>),
                  inFlight := inFlight srv @ [instanceId]\<rparr>)))"





text \<open>The server starts with no instance.\<close>

definition dn_initial :: dn_server where
  "dn_initial = \<lparr>activeInstances = Map.empty, inFlight = []\<rparr>"



section \<open>The scheduler of \<^verbatim>\<open>enhanced_cpux_server.js\<close>\<close>

text \<open>
  \<^verbatim>\<open>runCPUX\<close> visits the steps from left to right inside a \<^verbatim>\<open>while\<close> loop. What follows
  is the body of the inner \<^verbatim>\<open>for\<close> loop: the visit of one step. The module variables
  are the same three as in the clean server.
\<close>

definition targetRegistry_enhanced :: "string \<rightharpoonup> string" where
  "targetRegistry_enhanced = targetRegistry(''DN5'' \<mapsto> ''http://localhost:5001'')"

text \<open>\<^verbatim>\<open>`${step.intention}-${step.target}-${step.stepId}`\<close>\<close>

definition stepKey_enhanced :: "step \<Rightarrow> string" where
  "stepKey_enhanced s = intention s @ ''-'' @ target s @ ''-'' @ stepId s"

text \<open>\<^verbatim>\<open>step.target.startsWith('DN')\<close>\<close>

definition isDN :: "step \<Rightarrow> bool" where
  "isDN s = (take 2 (target s) = ''DN'')"

definition signalToSend_enhanced :: "field \<Rightarrow> step \<Rightarrow> signal" where
  "signalToSend_enhanced fld s =
     map (\<lambda>p. p\<lparr>response :=
            js_or (case fld (name p) of None \<Rightarrow> JUndefined | Some fp \<Rightarrow> response fp)
                  (response p)\<rparr>) (designTimeSignal s)"

definition payloadOf_enhanced :: "string \<Rightarrow> field \<Rightarrow> step \<Rightarrow> payload" where
  "payloadOf_enhanced ctx fld s =
     \<lparr>p_cpuxId = ctx, p_stepId = stepId s, p_intention = intention s,
      p_signal = signalToSend_enhanced fld s, p_source = Some (source s),
      p_target = target s, p_consumeSignal = Some (consumeSignal s),
      p_targetConsumption =
        Some (case given (targetConsumption s) of None \<Rightarrow> ''absorb'' | Some c \<Rightarrow> c),
      dnInstanceId = (if isDN s then Some (instanceIdOf ctx s) else None)\<rparr>"

text \<open>
  \<^verbatim>\<open>for (const pulse of step.designTimeSignal) if (cpuxField[pulse.name]) delete
  cpuxField[pulse.name]\<close>. The test finds an own entry or an inherited member;
  \<^verbatim>\<open>delete\<close> removes an own property and leaves an inherited member where it is.
\<close>

fun removePulses :: "signal \<Rightarrow> enhancedField \<Rightarrow> enhancedField" where
  "removePulses [] fld = fld"
| "removePulses (p # ps) fld =
     removePulses ps
       (if entries fld (name p) \<noteq> None \<or> name p \<in> set objectPrototypeMembers
        then fld\<lparr>entries := (entries fld)(name p := None)\<rparr>
        else fld)"

text \<open>
  The wait for the node: at most \<^verbatim>\<open>maxWait = 30\<close> requests to \<^verbatim>\<open>/ready\<close>, ended by a
  truthy \<^verbatim>\<open>ready\<close> or by a request that throws. The argument counts the requests left.
  The result is the final \<^verbatim>\<open>dnCompleted\<close>.
\<close>

fun waitForDN :: "'e post \<Rightarrow> string \<Rightarrow> request \<Rightarrow> nat \<Rightarrow> 'e \<Rightarrow> bool \<times> 'e" where
  "waitForDN post url body 0 e = (False, e)"
| "waitForDN post url body (Suc left) e =
     (case post e url body of
        (Threw, e') \<Rightarrow> (False, e')
      | (Replied d, e') \<Rightarrow>
          if d_ready d then (True, e') else waitForDN post url body left e')"

text \<open>
  The visit. \<open>cpuxId\<close> is the identifier of the definition, which the requests to
  \<^verbatim>\<open>/ready\<close> and \<^verbatim>\<open>/result\<close> carry. The status of a node is looked up under the instance
  id and written under the target name, as in the code. After an accepted request to a
  node the code tests \<^verbatim>\<open>dnReady\<close>, a variable that is initialised to \<^verbatim>\<open>false\<close> and never
  assigned (the wait assigns \<^verbatim>\<open>dnCompleted\<close>).
\<close>

definition runCPUX_visit ::
  "'e post \<Rightarrow> string \<Rightarrow> string \<Rightarrow> string \<Rightarrow> step
     \<Rightarrow> nat \<times> enhancedField cpux \<times> 'e \<Rightarrow> nat \<times> enhancedField cpux \<times> 'e" where
  "runCPUX_visit post ctx cpuxId now s acc =
     (case acc of (activationsThisPass, st, e) \<Rightarrow>
        if stepKey_enhanced s \<in> executionLog st then acc
        else if \<not> checkSignalMatch (designTimeSignal s) (elookup (cpuxField st)) then acc
        else if isDN s \<and> memberStatus st (instanceIdOf ctx s) = Some ''busy'' then acc
        else if isDN s \<and> memberStatus st (instanceIdOf ctx s) = Some ''stopped'' then acc
        else
          (let pl = payloadOf_enhanced ctx (elookup (cpuxField st)) s;
               memberUrl = targetRegistry_enhanced (target s) in
           case post e (endpoint memberUrl ''/execute'') (Execute pl) of
             (Threw, e1) \<Rightarrow> (activationsThisPass, st, e1)
           | (Replied d, e1) \<Rightarrow>
               (let consumed =
                      (if consumeSignal s
                       then st\<lparr>cpuxField := removePulses (designTimeSignal s) (cpuxField st)\<rparr>
                       else st)
                in
                if isDN s then
                  (let st1 = consumed\<lparr>memberStatus := (memberStatus consumed)(target s \<mapsto> ''executing'')\<rparr>;
                       dnReady = False
                   in case waitForDN post (endpoint memberUrl ''/ready'')
                             (Poll cpuxId (stepId s)) 30 e1 of
                        (dnCompleted, e2) \<Rightarrow>
                          if dnReady then
                            (case post e2 (endpoint memberUrl ''/result'') (Poll cpuxId (stepId s)) of
                               (Threw, e3) \<Rightarrow>
                                 (activationsThisPass + 1,
                                  st1\<lparr>memberStatus := (memberStatus st1)(target s \<mapsto> ''stopped'')\<rparr>, e3)
                             | (Replied r, e3) \<Rightarrow>
                                 (activationsThisPass + 1,
                                  st1\<lparr>cpuxField := fieldAbsorb_enhanced now (d_signal r)
                                                     (cpuxField st1) (consumeSignal s),
                                      memberStatus := (memberStatus st1)(target s \<mapsto> ''ready''),
                                      executionLog := insert (stepKey_enhanced s) (executionLog st1)\<rparr>,
                                  e3))
                          else
                            (activationsThisPass + 1,
                             st1\<lparr>memberStatus := (memberStatus st1)(target s \<mapsto> ''stopped'')\<rparr>, e2))
                else
                  (activationsThisPass + 1,
                   consumed\<lparr>executionLog := insert (stepKey_enhanced s) (executionLog consumed)\<rparr>,
                   e1))))"

section \<open>Configuration and sample runs\<close>

text \<open>\<^verbatim>\<open>CPUXDefinition\<close> of the clean server: the start signal and the nine steps.\<close>

definition cleanStep :: "string \<Rightarrow> string \<Rightarrow> string \<Rightarrow> string \<Rightarrow> string \<Rightarrow> step" where
  "cleanStep sid intent need tgt ty =
     \<lparr>stepId = sid, type = ty, intention = intent,
      designTimeSignal = [required need ''Y''], source = [], target = tgt,
      consumeSignal = False, targetConsumption = None\<rparr>"

definition startSignal :: signal where
  "startSignal =
     [\<lparr>name = ''start_license_request'', TV = ''Y'', response = JStr ''initiated'',
       timestamp = None\<rparr>]"

definition CPUXDefinition_sequence :: "step list" where
  "CPUXDefinition_sequence =
     [cleanStep ''1'' ''add_personal_detail'' ''start_license_request'' ''O1'' ''object'',
      cleanStep ''2'' ''fetch_personal_detail'' ''start_license_request'' ''DN1'' ''dn'',
      cleanStep ''3'' ''reflect_personal_detail'' ''personal_detail'' ''O1'' ''object'',
      cleanStep ''4'' ''fetch_driver_points'' ''personal_detail'' ''DN2'' ''dn'',
      cleanStep ''5'' ''reflect_driver_points'' ''driver_points'' ''O1'' ''object'',
      cleanStep ''6'' ''compute_expiry'' ''driver_points'' ''DN3'' ''dn'',
      cleanStep ''7'' ''reflect_expiry'' ''expiry_date'' ''O1'' ''object'',
      cleanStep ''8'' ''generate_license'' ''expiry_date'' ''DN4'' ''dn'',
      cleanStep ''9'' ''license_complete'' ''compiled_license'' ''CONSOLE'' ''final'']"

text \<open>The first two steps: the object step and the node step that the start signal enables.\<close>

definition step1 :: step where
  "step1 = cleanStep ''1'' ''add_personal_detail'' ''start_license_request'' ''O1'' ''object''"

definition step2 :: step where
  "step2 = cleanStep ''2'' ''fetch_personal_detail'' ''start_license_request'' ''DN1'' ''dn''"

text \<open>The state in which \<^verbatim>\<open>executeCPUX\<close> starts the first pass over the steps 1 and 2, for
  the context id \<^verbatim>\<open>CPUX_1\<close> and the clock reading \<^verbatim>\<open>t0\<close>.\<close>

definition started :: "fieldObject cpux" where
  "started =
     \<lparr>cpuxField = fieldAbsorb ''t0'' startSignal emptyObject,
      executionLog = {},
      memberStatus = initializeDNStatus [step1, step2] ''CPUX_1'' Map.empty\<rparr>"

text \<open>Sample environments: nodes that accept every request; nodes that answer every
  request with a refusal; a network on which the first request fails and the later ones
  succeed.\<close>

definition accepted :: data where
  "accepted = \<lparr>d_status = Some ''accepted'', d_ready = False, d_signal = []\<rparr>"

definition acceptAll :: "unit post" where
  "acceptAll e url body = (Replied accepted, e)"




text \<open>The emission of node DN1 for step 2, and a step of the enhanced server that
  consumes its signal.\<close>

definition emissionDN1 :: emission where
  "emissionDN1 =
     \<lparr>em_cpuxId = ''CPUX_1'', em_intention = ''result_fetch_personal_detail'',
      em_signal = [\<lparr>name = ''personal_detail'', TV = ''Y'',
                    response = JStr ''Alice Johnson'', timestamp = None\<rparr>],
      em_dnInstanceId = Some ''CPUX_1:2:DN1'', em_objectInstanceId = None,
      em_source = ''DN1''\<rparr>"

definition enhancedStep4 :: step where
  "enhancedStep4 =
     \<lparr>stepId = ''4'', type = ''intention-to-object'', intention = ''fetch_driver_points'',
      designTimeSignal = [required ''personal_detail'' ''Y''], source = ''O1'',
      target = ''DN2'', consumeSignal = True, targetConsumption = Some ''absorb''\<rparr>"

definition executeDN1 :: payload where
  "executeDN1 = payloadOf ''CPUX_1'' (cpuxField started) step2"

text \<open>Further samples: the start state with the instance of step 2 busy; the field of the
  enhanced server after the start signal and the emission of DN1; the orchestrator at the
  start of the first pass over the steps 1 and 2, when that pass has logged step 1 and
  comes to step 2, when it awaits the answer to the request of step 2, and when a pass
  comes to step 2 with the instance busy; an emission of the object; and the field object
  after a pulse named \<^verbatim>\<open>__proto__\<close> was absorbed.\<close>

definition busyState :: "fieldObject cpux" where
  "busyState = started\<lparr>memberStatus := (memberStatus started)(''CPUX_1:2:DN1'' \<mapsto> ''busy'')\<rparr>"

definition afterDN1 :: "enhancedField cpux" where
  "afterDN1 =
     \<lparr>cpuxField = fieldAbsorb_enhanced ''t1'' (em_signal emissionDN1)
                   (fieldAbsorb_enhanced ''t0'' startSignal emptyField True) True,
      executionLog = {}, memberStatus = Map.empty\<rparr>"





definition emissionO1 :: emission where
  "emissionO1 =
     \<lparr>em_cpuxId = ''CPUX_1'', em_intention = ''start_confirmed'',
      em_signal = [required ''start_license_request'' ''Y''],
      em_dnInstanceId = None, em_objectInstanceId = Some ''CPUX_1:1:O1'',
      em_source = ''O1''\<rparr>"

definition protoField :: fieldObject where
  "protoField = fieldAbsorb ''t1'' [required ''__proto__'' ''Y''] emptyObject"




section \<open>Properties of the field operations\<close>

lemma fieldMatch_iff:
  "fieldMatch fld req \<longleftrightarrow> (\<forall>r \<in> set req. \<exists>q. fld (name r) = Some q \<and> TV q = TV r)"
  by (auto simp: fieldMatch_def list_all_iff split: option.splits)


lemma fieldMatch_enhanced_eq: "fieldMatch_enhanced fld req = fieldMatch fld req"
  by (induction req) (auto simp: fieldMatch_def split: option.splits)

lemma fieldMatch_tvOf:
  "fieldMatch fld req \<longleftrightarrow> (\<forall>r \<in> set req. tvOf fld (name r) = Some (TV r))"
  by (auto simp: fieldMatch_iff tvOf_def)

lemma find_Some_member: "find P xs = Some x \<Longrightarrow> x \<in> set xs \<and> P x"
  by (induction xs) (auto split: if_splits)

lemma lastNamed_Some: "lastNamed n sig = Some p \<Longrightarrow> p \<in> set sig \<and> name p = n"
  using find_Some_member [of "\<lambda>p. name p = n" "rev sig" p] by (simp add: lastNamed_def)

lemma lastNamed_snoc: "lastNamed n (sig @ [p]) = (if name p = n then Some p else lastNamed n sig)"
  by (simp add: lastNamed_def)

subsection \<open>The enhanced server\<close>




subsection \<open>Field objects\<close>

lemma held_setProp: "held (setProp obj m entry) n = (if m = n then Some entry else held obj n)"
  by (auto simp: held_def setProp_def split: option.splits)

lemma held_spread: "held (spread obj) n = own obj n"
  by (simp add: held_def spread_def split: option.splits)

lemma held_spread': "held (spread obj) = own obj"
  by (rule ext) (rule held_spread)

lemma held_lookup: "held obj n = Some entry \<Longrightarrow> lookup obj n = Some entry"
  by (auto simp: held_def lookup_def getProp_def split: option.splits if_splits)

lemma own_held: "own obj n = Some entry \<Longrightarrow> held obj n = Some entry"
  by (simp add: held_def)

lemma absorbPulses_snoc:
  "absorbPulses now (sig @ [p]) obj = setProp (absorbPulses now sig obj) (name p) (entryOf now p)"
  by (induction sig arbitrary: obj) auto

lemma held_absorbPulses:
  "held (absorbPulses now sig obj) n
     = (case lastNamed n sig of Some p \<Rightarrow> Some (entryOf now p) | None \<Rightarrow> held obj n)"
proof (induction sig rule: rev_induct)
  case Nil
  then show ?case by (simp add: lastNamed_def)
next
  case (snoc p sig)
  then show ?case by (simp add: absorbPulses_snoc held_setProp lastNamed_snoc)
qed

lemma held_fieldAbsorb:
  "held (fieldAbsorb now sig obj) n
     = (case lastNamed n sig of Some p \<Rightarrow> Some (entryOf now p) | None \<Rightarrow> own obj n)"
  by (simp add: fieldAbsorb_def held_absorbPulses held_spread split: option.splits)

lemma tvOf_fieldAbsorb_last:
  "lastNamed n sig = Some p \<Longrightarrow> tvOf (lookup (fieldAbsorb now sig obj)) n = Some (TV p)"
proof -
  assume "lastNamed n sig = Some p"
  then have "held (fieldAbsorb now sig obj) n = Some (entryOf now p)"
    by (simp add: held_fieldAbsorb)
  then have "lookup (fieldAbsorb now sig obj) n = Some (entryOf now p)" by (rule held_lookup)
  then show ?thesis by (simp add: tvOf_def entryOf_def)
qed


lemma own_setProp_keep:
  "own obj n = Some q \<Longrightarrow> m \<noteq> n \<Longrightarrow> own (setProp obj m entry) n = Some q"
  by (simp add: setProp_def)

lemma own_absorbPulses_keep:
  "own obj n = Some q \<Longrightarrow> \<forall>p \<in> set sig. name p \<noteq> n \<Longrightarrow> own (absorbPulses now sig obj) n = Some q"
proof (induction sig arbitrary: obj)
  case Nil
  then show ?case by simp
next
  case (Cons p sig)
  from Cons.prems have "own (setProp obj (name p) (entryOf now p)) n = Some q"
    by (simp add: own_setProp_keep)
  moreover from Cons.prems have "\<forall>p \<in> set sig. name p \<noteq> n" by simp
  ultimately have "own (absorbPulses now sig (setProp obj (name p) (entryOf now p))) n = Some q"
    by (rule Cons.IH)
  then show ?case by simp
qed

subsection \<open>utils/field.js\<close>








lemma proto_absorb_utils_False:
  "proto obj = None \<Longrightarrow> proto (absorbPulses_utils sig obj False) = None"
proof (induction sig arbitrary: obj)
  case Nil
  then show ?case by simp
next
  case (Cons p sig)
  let ?obj' = "if \<not> isTruthy (getProp obj (name p))
      then setProp obj (name p) (entryOf_utils p) else obj"
  have "proto ?obj' = None"
    using Cons.prems
    by (auto simp: setProp_def getProp_def fromObjectPrototype_def objectPrototypeMembers_def
        split: option.splits)
  then have "proto (absorbPulses_utils sig ?obj' False) = None" by (rule Cons.IH)
  then show ?case by simp
qed


lemma started_field:
  "cpuxField started
     = \<lparr>own = [''start_license_request'' \<mapsto>
          \<lparr>name = ''start_license_request'', TV = ''Y'', response = JStr ''initiated'',
            timestamp = Some ''t0''\<rparr>], proto = None\<rparr>"
  by (simp add: started_def startSignal_def fieldAbsorb_def spread_def setProp_def
      emptyObject_def entryOf_def js_or_def)



lemma fieldMatch_kept_own:
  assumes m: "fieldMatch (own obj) req"
    and c: "\<forall>q \<in> set sig. \<forall>r \<in> set req. name q = name r \<longrightarrow> TV q = TV r"
  shows "fieldMatch (lookup (fieldAbsorb now sig obj)) req"
proof -
  have "tvOf (lookup (fieldAbsorb now sig obj)) (name r) = Some (TV r)" if r: "r \<in> set req" for r
  proof (cases "lastNamed (name r) sig")
    case None
    from m r obtain e where e: "own obj (name r) = Some e" "TV e = TV r"
      by (auto simp: fieldMatch_iff)
    with None have "held (fieldAbsorb now sig obj) (name r) = Some e"
      by (simp add: held_fieldAbsorb)
    then have "lookup (fieldAbsorb now sig obj) (name r) = Some e" by (rule held_lookup)
    with e show ?thesis by (simp add: tvOf_def)
  next
    case (Some q)
    then have "q \<in> set sig" "name q = name r" using lastNamed_Some by auto
    with c r have "TV q = TV r" by blast
    with Some show ?thesis by (simp add: tvOf_fieldAbsorb_last)
  qed
  then show ?thesis by (simp add: fieldMatch_tvOf)
qed






text \<open>
  Claim C7 says that a precondition that matches a field still matches after the clean
  server absorbs a signal in which every pulse that shares its name with an entry of the
  precondition carries that entry's \<^verbatim>\<open>TV\<close>. The code does not keep it for the name
  \<^verbatim>\<open>__proto__\<close>: the field that absorbed \<^verbatim>\<open>__proto__:Y\<close> matches the precondition
  \<^verbatim>\<open>__proto__:Y\<close>, and after it absorbs the pulse \<^verbatim>\<open>x:Y\<close>, of another name, it no longer
  does.
\<close>

theorem fieldMatch_lost_after_absorb:
  "fieldMatch (lookup protoField) [required ''__proto__'' ''Y'']
   \<and> name (required ''x'' ''Y'') \<noteq> name (required ''__proto__'' ''Y'')
   \<and> \<not> fieldMatch (lookup (fieldAbsorb ''t2'' [required ''x'' ''Y''] protoField))
         [required ''__proto__'' ''Y'']"
  by (simp add: protoField_def fieldAbsorb_def spread_def setProp_def emptyObject_def
      fieldMatch_def lookup_def getProp_def fromObjectPrototype_def objectPrototypeMembers_def
      entryOf_def required_def)



section \<open>Properties of the clean orchestrator\<close>

subsection \<open>One step\<close>

text \<open>The four shapes of a step.\<close>

lemma executeStep_object:
  "type s = ''object'' \<Longrightarrow> executeStep post ctx s st e =
     (case post e (endpoint (targetRegistry (target s)) ''/execute'')
              (Execute (payloadOf ctx (cpuxField st) s)) of
        (Replied d, e') \<Rightarrow> (True, st, e')
      | (Threw, e') \<Rightarrow> (False, st, e'))"
  by (simp add: executeStep_def executeObjectStep_def split: prod.splits reply.splits)

lemma executeStep_dn:
  "type s = ''dn'' \<Longrightarrow> executeStep post ctx s st e =
     (if memberStatus st (instanceIdOf ctx s) \<noteq> Some ''ready'' then (False, st, e)
      else
        (case post e (endpoint (targetRegistry (target s)) ''/execute'')
                (Execute (payloadOf ctx (cpuxField st) s)) of
           (Replied d, e') \<Rightarrow>
             if d_status d = Some ''accepted''
             then (True, st\<lparr>memberStatus := (memberStatus st)(instanceIdOf ctx s \<mapsto> ''busy'')\<rparr>, e')
             else (False, st, e')
         | (Threw, e') \<Rightarrow> (False, st, e')))"
  by (simp add: executeStep_def executeDNStep_def payloadOf_def split: prod.splits reply.splits)

lemma executeStep_final:
  "type s = ''final'' \<Longrightarrow> executeStep post ctx s st e = (True, st, e)"
  by (simp add: executeStep_def executeFinalStep_def)

lemma executeStep_other:
  "type s \<noteq> ''object'' \<Longrightarrow> type s \<noteq> ''dn'' \<Longrightarrow> type s \<noteq> ''final'' \<Longrightarrow>
   executeStep post ctx s st e = (False, st, e)"
  by (simp add: executeStep_def)

lemma step_types:
  obtains "type s = ''object''" | "type s = ''dn''" | "type s = ''final''"
  | "type s \<noteq> ''object''" "type s \<noteq> ''dn''" "type s \<noteq> ''final''"
  by blast

lemma executeStep_field: "executeStep post ctx s st e = (ok, st', e') \<Longrightarrow>
  cpuxField st' = cpuxField st \<and> executionLog st' = executionLog st"
  by (cases s rule: step_types)
     (auto simp: executeStep_object executeStep_dn executeStep_final executeStep_other
           split: if_splits prod.splits reply.splits)

lemma executeStep_not_ready:
  "type s = ''dn'' \<Longrightarrow> memberStatus st (instanceIdOf ctx s) \<noteq> Some ''ready'' \<Longrightarrow>
   executeStep post ctx s st e = (False, st, e)"
  by (simp add: executeStep_dn)

lemma executeStep_failed: "executeStep post ctx s st e = (False, st', e') \<Longrightarrow> st' = st"
  by (cases s rule: step_types)
     (auto simp: executeStep_object executeStep_dn executeStep_final executeStep_other
           split: if_splits prod.splits reply.splits)

lemma executeStep_busy:
  assumes "executeStep post ctx s st e = (ok, st', e')"
    and "memberStatus st' i \<noteq> memberStatus st i"
  shows "type s = ''dn'' \<and> i = instanceIdOf ctx s \<and> memberStatus st i = Some ''ready''
     \<and> memberStatus st' i = Some ''busy'' \<and> ok
     \<and> (\<exists>d. fst (post e (endpoint (targetRegistry (target s)) ''/execute'')
                   (Execute (payloadOf ctx (cpuxField st) s))) = Replied d
            \<and> d_status d = Some ''accepted'')"
proof (cases s rule: step_types)
  case 2
  with assms show ?thesis
    by (auto simp: executeStep_dn split: if_splits prod.splits reply.splits)
qed (use assms in \<open>auto simp: executeStep_object executeStep_final executeStep_other
           split: prod.splits reply.splits\<close>)

lemma passStep_dn_accepted:
  assumes "type s = ''dn''" "stepKey s \<notin> executionLog st"
    "fieldMatch (lookup (cpuxField st)) (designTimeSignal s)"
    "memberStatus st (instanceIdOf ctx s) = Some ''ready''"
    "post e (endpoint (targetRegistry (target s)) ''/execute'')
        (Execute (payloadOf ctx (cpuxField st) s)) = (Replied d, e')"
    "d_status d = Some ''accepted''"
  shows "passStep post ctx s (n, st, e) =
     (n + 1, st\<lparr>memberStatus := (memberStatus st)(instanceIdOf ctx s \<mapsto> ''busy''),
               executionLog := insert (stepKey s) (executionLog st)\<rparr>, e')"
  using assms
  by (simp add: passStep_def executeStep_dn)

subsection \<open>What a pass may change\<close>

lemma grows_refl: "grows st st" by (simp add: grows_def)

lemma grows_trans:
  assumes "grows a b" "grows b c"
  shows "grows a c"
proof -
  have f: "cpuxField c = cpuxField a" using assms by (simp add: grows_def)
  have l: "executionLog a \<subseteq> executionLog c" using assms unfolding grows_def by blast
  have m: "memberStatus c i = memberStatus a i
            \<or> (memberStatus a i = Some ''ready'' \<and> memberStatus c i = Some ''busy'')" for i
  proof -
    have 1: "memberStatus b i = memberStatus a i
            \<or> (memberStatus a i = Some ''ready'' \<and> memberStatus b i = Some ''busy'')"
      using assms(1) unfolding grows_def by blast
    have 2: "memberStatus c i = memberStatus b i
            \<or> (memberStatus b i = Some ''ready'' \<and> memberStatus c i = Some ''busy'')"
      using assms(2) unfolding grows_def by blast
    from 1 2 show ?thesis by auto
  qed
  from f l m show ?thesis unfolding grows_def by blast
qed

lemma passStep_cases:
  "passStep post ctx s (n, st, e) =
     (if stepKey s \<in> executionLog st \<or> \<not> fieldMatch (lookup (cpuxField st)) (designTimeSignal s)
      then (n, st, e)
      else if fst (executeStep post ctx s st e)
      then (n + 1, (fst (snd (executeStep post ctx s st e)))
                     \<lparr>executionLog := insert (stepKey s)
                        (executionLog (fst (snd (executeStep post ctx s st e))))\<rparr>,
            snd (snd (executeStep post ctx s st e)))
      else (n, fst (snd (executeStep post ctx s st e)), snd (snd (executeStep post ctx s st e))))"
  by (simp add: passStep_def split: prod.splits)

lemma executeStep_grows: "executeStep post ctx s st e = (ok, st1, e1) \<Longrightarrow> grows st st1"
proof -
  assume ex: "executeStep post ctx s st e = (ok, st1, e1)"
  have f: "cpuxField st1 = cpuxField st \<and> executionLog st1 = executionLog st"
    using executeStep_field[OF ex] .
  have m: "memberStatus st1 i = memberStatus st i
            \<or> (memberStatus st i = Some ''ready'' \<and> memberStatus st1 i = Some ''busy'')" for i
    using executeStep_busy[OF ex, of i] by blast
  from f m show ?thesis unfolding grows_def by simp
qed

lemma grows_log: "grows st st1 \<Longrightarrow> grows st (st1\<lparr>executionLog := insert k (executionLog st1)\<rparr>)"
  unfolding grows_def by auto

lemma passStep_grows: "passStep post ctx s (n, st, e) = (n', st', e') \<Longrightarrow> grows st st'"
proof -
  assume a: "passStep post ctx s (n, st, e) = (n', st', e')"
  obtain ok st1 e1 where ex: "executeStep post ctx s st e = (ok, st1, e1)"
    by (cases "executeStep post ctx s st e") auto
  have g: "grows st st1" using executeStep_grows[OF ex] .
  consider "st' = st" | "st' = st1" | "st' = st1\<lparr>executionLog := insert (stepKey s) (executionLog st1)\<rparr>"
    using a ex by (auto simp: passStep_cases split: if_splits)
  then show ?thesis
    using g by cases (simp_all add: grows_refl grows_log)
qed

lemma pass_grows_gen:
  "foldl (\<lambda>acc s. passStep post ctx s acc) (n, st, e) sq = (n', st', e') \<Longrightarrow> grows st st'"
proof (induction sq arbitrary: n st e)
  case Nil
  then show ?case by (simp add: grows_refl)
next
  case (Cons s sq)
  obtain n1 st1 e1 where p: "passStep post ctx s (n, st, e) = (n1, st1, e1)"
    by (cases "passStep post ctx s (n, st, e)") auto
  with Cons.prems have "foldl (\<lambda>acc s. passStep post ctx s acc) (n1, st1, e1) sq = (n', st', e')"
    by simp
  then have "grows st1 st'" by (rule Cons.IH)
  with passStep_grows[OF p] show ?case by (rule grows_trans)
qed

lemma pass_grows: "executeSequencePass post ctx sq st e = (n', st', e') \<Longrightarrow> grows st st'"
  unfolding executeSequencePass_def by (rule pass_grows_gen)

text \<open>A key enters the log only for a step of the sequence whose precondition matched.\<close>

lemma passStep_shape:
  assumes "passStep post ctx s (n, st, e) = (n', st', e')"
  obtains "st' = st" "n' = n"
  | ok st1 e1 where "executeStep post ctx s st e = (ok, st1, e1)" "st' = st1" "n' = n" "\<not> ok"
      "stepKey s \<notin> executionLog st" "fieldMatch (lookup (cpuxField st)) (designTimeSignal s)"
  | st1 e1 where "executeStep post ctx s st e = (True, st1, e1)"
      "st' = st1\<lparr>executionLog := insert (stepKey s) (executionLog st1)\<rparr>" "n' = n + 1"
      "stepKey s \<notin> executionLog st" "fieldMatch (lookup (cpuxField st)) (designTimeSignal s)"
proof -
  obtain ok st1 e1 where ex: "executeStep post ctx s st e = (ok, st1, e1)"
    by (cases "executeStep post ctx s st e") auto
  show ?thesis
  proof (cases "stepKey s \<in> executionLog st \<or> \<not> fieldMatch (lookup (cpuxField st)) (designTimeSignal s)")
    case True
    with assms have "st' = st" "n' = n" by (simp_all add: passStep_cases)
    then show ?thesis by (rule that(1))
  next
    case False
    then have k: "stepKey s \<notin> executionLog st" and m: "fieldMatch (lookup (cpuxField st)) (designTimeSignal s)"
      by simp_all
    show ?thesis
    proof (cases ok)
      case True
      with ex have ex': "executeStep post ctx s st e = (True, st1, e1)" by simp
      from False assms ex' have a: "st' = st1\<lparr>executionLog := insert (stepKey s) (executionLog st1)\<rparr>"
        and b: "n' = n + 1"
        by (simp_all add: passStep_cases)
      show ?thesis using ex' a b k m by (rule that(3))
    next
      case no: False
      from False assms ex no have a: "st' = st1" and b: "n' = n"
        by (simp_all add: passStep_cases)
      show ?thesis using ex a b no k m by (rule that(2))
    qed
  qed
qed

lemma passStep_newkey:
  assumes a: "passStep post ctx s (n, st, e) = (n', st', e')"
    and k: "k \<in> executionLog st'" "k \<notin> executionLog st"
  shows "k = stepKey s \<and> fieldMatch (lookup (cpuxField st)) (designTimeSignal s)"
  using a
proof (cases rule: passStep_shape)
  case 1
  with k show ?thesis by simp
next
  case (2 ok st1 e1)
  with executeStep_field[OF 2(1)] k show ?thesis by simp
next
  case (3 st1 e1)
  with executeStep_field[OF 3(1)] k show ?thesis by simp
qed

lemma pass_newkey_gen:
  "foldl (\<lambda>acc s. passStep post ctx s acc) (n, st, e) sq = (n', st', e') \<Longrightarrow>
   k \<in> executionLog st' \<Longrightarrow> k \<notin> executionLog st \<Longrightarrow>
   \<exists>s \<in> set sq. k = stepKey s \<and> fieldMatch (lookup (cpuxField st)) (designTimeSignal s)"
proof (induction sq arbitrary: n st e)
  case Nil
  then show ?case by simp
next
  case (Cons s sq)
  obtain n1 st1 e1 where p: "passStep post ctx s (n, st, e) = (n1, st1, e1)"
    by (cases "passStep post ctx s (n, st, e)") auto
  with Cons.prems have r: "foldl (\<lambda>acc s. passStep post ctx s acc) (n1, st1, e1) sq = (n', st', e')"
    by simp
  have g: "cpuxField st1 = cpuxField st" using passStep_grows[OF p] by (simp add: grows_def)
  show ?case
  proof (cases "k \<in> executionLog st1")
    case True
    with passStep_newkey[OF p] Cons.prems show ?thesis by simp
  next
    case False
    from Cons.IH[OF r Cons.prems(2) False] g show ?thesis by auto
  qed
qed

subsection \<open>The two halves of a visit\<close>

lemma passStep_split:
  "passStep post ctx s (n, st, e) =
     (case beginStep ctx s st of
        Skipped \<Rightarrow> (n, st, e)
      | Executed \<Rightarrow> (n + 1, logged s st, e)
      | Sent url body \<Rightarrow>
          (case post e url body of
             (r, e') \<Rightarrow> (case endStep ctx s r (n, st) of (n', st') \<Rightarrow> (n', st', e'))))"
proof (cases s rule: step_types)
  case 1
  then show ?thesis
    by (simp add: passStep_cases executeStep_object beginStep_def endStep_def logged_def
        split: prod.splits reply.splits)
next
  case 2
  then show ?thesis
    by (simp add: passStep_cases executeStep_dn beginStep_def endStep_def logged_def
        split: prod.splits reply.splits)
next
  case 3
  then show ?thesis
    by (simp add: passStep_cases executeStep_final beginStep_def endStep_def logged_def)
next
  case 4
  then show ?thesis
    by (simp add: passStep_cases executeStep_other beginStep_def endStep_def logged_def)
qed

lemma endStep_dispatched:
  "endStep ctx s r (n, st) =
     (if dispatched s r
      then (n + 1, logged s (if type s = ''dn''
              then st\<lparr>memberStatus := (memberStatus st)(instanceIdOf ctx s \<mapsto> ''busy'')\<rparr>
              else st))
      else (n, st))"
  by (simp add: endStep_def dispatched_def split: reply.splits)



lemma beginStep_logged: "stepKey s \<in> executionLog st \<Longrightarrow> beginStep ctx s st = Skipped"
  by (simp add: beginStep_def)




subsection \<open>The requests of a pass\<close>

lemma passStep_recording:
  "passStep (recording post) ctx s (n, st, (e, tr)) =
     (case beginStep ctx s st of
        Skipped \<Rightarrow> (n, st, (e, tr))
      | Executed \<Rightarrow> (n + 1, logged s st, (e, tr))
      | Sent url body \<Rightarrow>
          (case post e url body of
             (r, e') \<Rightarrow>
               (case endStep ctx s r (n, st) of
                  (n', st') \<Rightarrow> (n', st', (e', tr @ [(url, body, r)])))))"
  by (simp add: passStep_split recording_def split: begun.splits prod.splits)

lemma passStep_recording_fst:
  assumes "passStep (recording post) ctx s (n, st, (e, tr)) = (n', st', (e', tr'))"
  shows "passStep post ctx s (n, st, e) = (n', st', e')"
proof -
  have "passStep post ctx s (n, st, e) =
     (case beginStep ctx s st of
        Skipped \<Rightarrow> (n, st, e)
      | Executed \<Rightarrow> (n + 1, logged s st, e)
      | Sent url body \<Rightarrow>
          (case post e url body of
             (r, e') \<Rightarrow> (case endStep ctx s r (n, st) of (n', st') \<Rightarrow> (n', st', e'))))"
    by (rule passStep_split)
  with assms show ?thesis
    unfolding passStep_recording by (simp split: begun.splits prod.splits)
qed














lemma pass_field: "executeSequencePass post ctx sq st e = (n, st', e') \<Longrightarrow> cpuxField st' = cpuxField st"
  using pass_grows [of post ctx sq st e n st' e'] by (simp add: grows_def)

lemma cpux_intention_absorbed:
  "em_cpuxId body = ctx \<Longrightarrow>
   snd (cpux_intention post ctx sq now body st e)
     = snd (executeSequencePass post ctx sq (absorbed now body st) e)"
  by (simp add: cpux_intention_def absorbed_def Let_def split: prod.splits option.splits)

lemma absorbed_log: "executionLog (absorbed now body st) = executionLog st"
  by (simp add: absorbed_def Let_def split: option.splits)

lemma absorbed_field:
  "cpuxField (absorbed now body st) = fieldAbsorb now (em_signal body) (cpuxField st)"
  by (simp add: absorbed_def Let_def split: option.splits)

section \<open>Sample facts\<close>

lemma required_sel: "name (required n tv) = n" "TV (required n tv) = tv"
  by (simp_all add: required_def)

lemma step1_sel: "type step1 = ''object''" "stepId step1 = ''1''" "target step1 = ''O1''"
  "intention step1 = ''add_personal_detail''"
  "designTimeSignal step1 = [required ''start_license_request'' ''Y'']"
  by (simp_all add: step1_def cleanStep_def)

lemma step2_sel: "type step2 = ''dn''" "stepId step2 = ''2''" "target step2 = ''DN1''"
  "intention step2 = ''fetch_personal_detail''"
  "designTimeSignal step2 = [required ''start_license_request'' ''Y'']"
  by (simp_all add: step2_def cleanStep_def)

lemma step_keys: "stepKey step1 = ''1:add_personal_detail:O1''"
  "stepKey step2 = ''2:fetch_personal_detail:DN1''"
  "instanceIdOf ''CPUX_1'' step2 = ''CPUX_1:2:DN1''"
  by (simp_all add: stepKey_def instanceIdOf_def step1_sel step2_sel)

lemma started_sel: "executionLog started = {}"
  "memberStatus started = [''CPUX_1:2:DN1'' \<mapsto> ''ready'']"
  by (simp_all add: started_def initializeDNStatus_def step1_sel step2_sel step_keys)

lemma started_lookup:
  "lookup (cpuxField started) ''start_license_request''
     = Some \<lparr>name = ''start_license_request'', TV = ''Y'', response = JStr ''initiated'',
            timestamp = Some ''t0''\<rparr>"
  by (simp add: started_field lookup_def getProp_def)

lemma started_match:
  "fieldMatch (lookup (cpuxField started)) [required ''start_license_request'' ''Y'']"
  by (simp add: fieldMatch_def started_lookup required_sel)

lemma started_begin1:
  "beginStep ''CPUX_1'' step1 started
     = Sent ''http://localhost:4000/execute'' (Execute (payloadOf ''CPUX_1'' (cpuxField started) step1))"
  by (simp add: beginStep_def step1_sel step_keys started_sel started_match endpoint_def
      targetRegistry_def)

lemma started_begin2:
  "beginStep ''CPUX_1'' step2 started
     = Sent ''http://localhost:5001/execute'' (Execute (payloadOf ''CPUX_1'' (cpuxField started) step2))"
  by (simp add: beginStep_def step2_sel step_keys started_sel started_match endpoint_def
      targetRegistry_def)

lemma logged_sel: "cpuxField (logged s st) = cpuxField st"
  "executionLog (logged s st) = insert (stepKey s) (executionLog st)"
  "memberStatus (logged s st) = memberStatus st"
  by (simp_all add: logged_def)



section \<open>The claims about the orchestrator\<close>






text \<open>
  Claim C3, as the code has it. For a node step (\<^verbatim>\<open>type 'dn'\<close>) that is not logged, whose
  precondition matches and whose instance is ready, the pass appends the step's key to
  the execution log in the same iteration in which the node answers \<^verbatim>\<open>'accepted'\<close>: at
  dispatch time, with the field as it was. The intake endpoint absorbs the signal and
  releases the instance without touching the log, and then runs a pass from that state;
  a key that is in the log afterwards and was not there before is the key of a step of
  the sequence whose precondition matches the field after the absorption.
\<close>

theorem dn_step_logged_at_dispatch:
  "(type s = ''dn'' \<and> stepKey s \<notin> executionLog st
      \<and> fieldMatch (lookup (cpuxField st)) (designTimeSignal s)
      \<and> memberStatus st (instanceIdOf ctx s) = Some ''ready''
      \<and> post e (endpoint (targetRegistry (target s)) ''/execute'')
            (Execute (payloadOf ctx (cpuxField st) s)) = (Replied d, e1)
      \<and> d_status d = Some ''accepted''
    \<longrightarrow> passStep post ctx s (n, st, e) =
          (n + 1, st\<lparr>memberStatus := (memberStatus st)(instanceIdOf ctx s \<mapsto> ''busy''),
                    executionLog := insert (stepKey s) (executionLog st)\<rparr>, e1))
   \<and> executionLog (absorbed now body st) = executionLog st
   \<and> (em_cpuxId body = ctx
        \<longrightarrow> snd (cpux_intention post ctx sq now body st e)
            = snd (executeSequencePass post ctx sq (absorbed now body st) e))
   \<and> (cpux_intention post ctx sq now body st e = (r, st', e') \<and> k \<in> executionLog st'
        \<and> k \<notin> executionLog st
    \<longrightarrow> (\<exists>s' \<in> set sq. k = stepKey s'
            \<and> fieldMatch (lookup (fieldAbsorb now (em_signal body) (cpuxField st)))
                 (designTimeSignal s')))"
proof (intro conjI impI)
  assume a: "type s = ''dn'' \<and> stepKey s \<notin> executionLog st
      \<and> fieldMatch (lookup (cpuxField st)) (designTimeSignal s)
      \<and> memberStatus st (instanceIdOf ctx s) = Some ''ready''
      \<and> post e (endpoint (targetRegistry (target s)) ''/execute'')
            (Execute (payloadOf ctx (cpuxField st) s)) = (Replied d, e1)
      \<and> d_status d = Some ''accepted''"
  from a have 1: "type s = ''dn''" by (rule conjunct1)
  from a have 2: "stepKey s \<notin> executionLog st" by blast
  from a have 3: "fieldMatch (lookup (cpuxField st)) (designTimeSignal s)" by blast
  from a have 4: "memberStatus st (instanceIdOf ctx s) = Some ''ready''" by blast
  from a have 5: "post e (endpoint (targetRegistry (target s)) ''/execute'')
            (Execute (payloadOf ctx (cpuxField st) s)) = (Replied d, e1)" by blast
  from a have 6: "d_status d = Some ''accepted''" by blast
  show "passStep post ctx s (n, st, e) =
          (n + 1, st\<lparr>memberStatus := (memberStatus st)(instanceIdOf ctx s \<mapsto> ''busy''),
                    executionLog := insert (stepKey s) (executionLog st)\<rparr>, e1)"
    using 1 2 3 4 5 6 by (rule passStep_dn_accepted)
next
  show "executionLog (absorbed now body st) = executionLog st" by (rule absorbed_log)
next
  assume "em_cpuxId body = ctx"
  then show "snd (cpux_intention post ctx sq now body st e)
            = snd (executeSequencePass post ctx sq (absorbed now body st) e)"
    by (rule cpux_intention_absorbed)
next
  assume a: "cpux_intention post ctx sq now body st e = (r, st', e') \<and> k \<in> executionLog st'
        \<and> k \<notin> executionLog st"
  from a have ok: "em_cpuxId body = ctx"
    by (auto simp: cpux_intention_def Let_def split: if_splits)
  obtain n3 st3 e3 where p: "executeSequencePass post ctx sq (absorbed now body st) e = (n3, st3, e3)"
    by (cases "executeSequencePass post ctx sq (absorbed now body st) e") auto
  from cpux_intention_absorbed [OF ok, of post sq now st e] a p have "st' = st3" by simp
  with a have k1: "k \<in> executionLog st3" and k2: "k \<notin> executionLog (absorbed now body st)"
    by (simp_all add: absorbed_log)
  from p have p': "foldl (\<lambda>acc s. passStep post ctx s acc) (0, absorbed now body st, e) sq
      = (n3, st3, e3)"
    unfolding executeSequencePass_def .
  have "\<exists>s' \<in> set sq. k = stepKey s'
      \<and> fieldMatch (lookup (cpuxField (absorbed now body st))) (designTimeSignal s')"
    using p' k1 k2 by (rule pass_newkey_gen)
  then show "\<exists>s' \<in> set sq. k = stepKey s'
            \<and> fieldMatch (lookup (fieldAbsorb now (em_signal body) (cpuxField st)))
                 (designTimeSignal s')"
    unfolding absorbed_field .
qed

theorem dn_step_logged_at_dispatch_witness:
  "passStep acceptAll ''CPUX_1'' step2 (0, started, ()) =
     (1, started\<lparr>memberStatus := (memberStatus started)(''CPUX_1:2:DN1'' \<mapsto> ''busy''),
               executionLog := insert ''2:fetch_personal_detail:DN1'' (executionLog started)\<rparr>, ())
   \<and> executionLog (fst (snd (cpux_intention acceptAll ''CPUX_1'' [step1, step2] ''t1''
        emissionO1 started ())))
     = {''1:add_personal_detail:O1'', ''2:fetch_personal_detail:DN1''}
   \<and> (\<exists>s' \<in> set [step1, step2]. ''2:fetch_personal_detail:DN1'' = stepKey s'
        \<and> fieldMatch (lookup (fieldAbsorb ''t1'' (em_signal emissionO1) (cpuxField started)))
             (designTimeSignal s'))"
proof -
  have r: "acceptAll () (endpoint (targetRegistry (target step2)) ''/execute'')
            (Execute (payloadOf ''CPUX_1'' (cpuxField started) step2)) = (Replied accepted, ())"
    by (simp add: acceptAll_def)
  have d: "d_status accepted = Some ''accepted''" by (simp add: accepted_def)
  have m: "fieldMatch (lookup (cpuxField started)) (designTimeSignal step2)"
    by (simp add: step2_sel started_match)
  have a: "passStep acceptAll ''CPUX_1'' step2 (0, started, ()) =
     (1, started\<lparr>memberStatus := (memberStatus started)(''CPUX_1:2:DN1'' \<mapsto> ''busy''),
               executionLog := insert ''2:fetch_personal_detail:DN1'' (executionLog started)\<rparr>, ())"
    using dn_step_logged_at_dispatch [where s = step2 and st = started and ctx = "''CPUX_1''"
        and post = acceptAll and e = "()" and d = accepted and ?e1.0 = "()" and n = 0]
      r d m step2_sel(1) step_keys started_sel
    by simp
  have c: "em_cpuxId emissionO1 = ''CPUX_1''" by (simp add: emissionO1_def)
  have f: "cpuxField (absorbed ''t1'' emissionO1 started)
      = \<lparr>own = [''start_license_request'' \<mapsto>
          \<lparr>name = ''start_license_request'', TV = ''Y'', response = JNull,
            timestamp = Some ''t1''\<rparr>], proto = None\<rparr>"
    by (simp add: absorbed_field emissionO1_def started_field fieldAbsorb_def spread_def
        setProp_def entryOf_def required_def js_or_def)
  have ms: "memberStatus (absorbed ''t1'' emissionO1 started) = [''CPUX_1:2:DN1'' \<mapsto> ''ready'']"
    by (simp add: absorbed_def emissionO1_def given_def started_sel)
  have mm: "fieldMatch (lookup (cpuxField (absorbed ''t1'' emissionO1 started)))
      [required ''start_license_request'' ''Y'']"
    unfolding f by (simp add: fieldMatch_def lookup_def getProp_def required_def)
  have p: "executionLog (fst (snd (executeSequencePass acceptAll ''CPUX_1'' [step1, step2]
        (absorbed ''t1'' emissionO1 started) ())))
      = {''1:add_personal_detail:O1'', ''2:fetch_personal_detail:DN1''}"
    by (simp add: executeSequencePass_def passStep_split beginStep_def step1_sel step2_sel
        step_keys absorbed_log started_sel mm ms logged_sel acceptAll_def endStep_dispatched
        dispatched_def accepted_def insert_commute)
  have "snd (cpux_intention acceptAll ''CPUX_1'' [step1, step2] ''t1'' emissionO1 started ())
      = snd (executeSequencePass acceptAll ''CPUX_1'' [step1, step2]
          (absorbed ''t1'' emissionO1 started) ())"
    using dn_step_logged_at_dispatch [where body = emissionO1 and ctx = "''CPUX_1''"
        and post = acceptAll and sq = "[step1, step2]" and now = "''t1''" and st = started
        and e = "()"] c by blast
  with p have b: "executionLog (fst (snd (cpux_intention acceptAll ''CPUX_1'' [step1, step2] ''t1''
        emissionO1 started ())))
     = {''1:add_personal_detail:O1'', ''2:fetch_personal_detail:DN1''}" by simp
  have x: "cpux_intention acceptAll ''CPUX_1'' [step1, step2] ''t1'' emissionO1 started ()
      = (fst (cpux_intention acceptAll ''CPUX_1'' [step1, step2] ''t1'' emissionO1 started ()),
         fst (snd (cpux_intention acceptAll ''CPUX_1'' [step1, step2] ''t1'' emissionO1 started ())),
         ())"
    by (simp add: prod_eq_iff)
  have k1: "''2:fetch_personal_detail:DN1'' \<in> executionLog (fst (snd (cpux_intention acceptAll
      ''CPUX_1'' [step1, step2] ''t1'' emissionO1 started ())))"
    unfolding b by simp
  have k2: "''2:fetch_personal_detail:DN1'' \<notin> executionLog started"
    by (simp add: started_sel)
  have g: "\<exists>s' \<in> set [step1, step2]. ''2:fetch_personal_detail:DN1'' = stepKey s'
        \<and> fieldMatch (lookup (fieldAbsorb ''t1'' (em_signal emissionO1) (cpuxField started)))
             (designTimeSignal s')"
    using dn_step_logged_at_dispatch [where body = emissionO1 and ctx = "''CPUX_1''"
        and post = acceptAll and sq = "[step1, step2]" and now = "''t1''" and st = started
        and e = "()" and k = "''2:fetch_personal_detail:DN1''"
        and r = "fst (cpux_intention acceptAll ''CPUX_1'' [step1, step2] ''t1'' emissionO1 started ())"
        and st' = "fst (snd (cpux_intention acceptAll ''CPUX_1'' [step1, step2] ''t1''
            emissionO1 started ()))"
        and e' = "()"] x k1 k2 by blast
  from a b g show ?thesis by blast
qed

text \<open>
  The claim as the specification words it fails: after the first pass alone, with no
  emission received and the field as it was, the key of the node step 2 is in the log.
\<close>

theorem dn_step_logged_before_emission:
  "stepKey step2 \<in> executionLog (fst (snd (executeSequencePass acceptAll ''CPUX_1'' [step1, step2] started ())))
   \<and> cpuxField (fst (snd (executeSequencePass acceptAll ''CPUX_1'' [step1, step2] started ())))
       = cpuxField started
   \<and> executionLog started = {}"
  by (simp add: executeSequencePass_def passStep_split started_begin1 beginStep_def step2_sel
      step_keys logged_sel started_sel started_match endStep_dispatched dispatched_def
      acceptAll_def accepted_def step1_sel)

text \<open>
  Claim C4. An emission that carries another context id is answered with the error and
  leaves field, instance states and log as they were; so is the environment, to which
  nothing was sent. For a matching context id with the instance id \<open>d\<close> of the emitting
  node, the handler returns what one call of \<^verbatim>\<open>executeSequencePass\<close> returns from the
  state in which the signal is absorbed into the field and \<open>d\<close> is \<^verbatim>\<open>'ready'\<close>; the field
  afterwards is the field with the signal absorbed. Without an instance id of a node (an
  emission of the object) it is one pass from the state with the signal absorbed.
\<close>

theorem cpux_intention_spec:
  "(em_cpuxId body \<noteq> ctx \<longrightarrow> cpux_intention post ctx sq now body st e = (WrongContext, st, e))
   \<and> (em_cpuxId body = ctx \<and> em_dnInstanceId body = Some d \<and> d \<noteq> [] \<longrightarrow>
        (\<exists>n st' e'.
           executeSequencePass post ctx sq
             (st\<lparr>cpuxField := fieldAbsorb now (em_signal body) (cpuxField st),
                 memberStatus := (memberStatus st)(d \<mapsto> ''ready'')\<rparr>) e = (n, st', e')
           \<and> cpux_intention post ctx sq now body st e
               = (Received (length (em_signal body)) n d, st', e')
           \<and> cpuxField st' = fieldAbsorb now (em_signal body) (cpuxField st)))
   \<and> (em_cpuxId body = ctx \<and> given (em_dnInstanceId body) = None \<longrightarrow>
        (\<exists>n st' e' who.
           executeSequencePass post ctx sq
             (st\<lparr>cpuxField := fieldAbsorb now (em_signal body) (cpuxField st)\<rparr>) e = (n, st', e')
           \<and> cpux_intention post ctx sq now body st e
               = (Received (length (em_signal body)) n who, st', e')
           \<and> cpuxField st' = fieldAbsorb now (em_signal body) (cpuxField st)))"
proof (intro conjI impI)
  assume "em_cpuxId body \<noteq> ctx"
  then show "cpux_intention post ctx sq now body st e = (WrongContext, st, e)"
    by (simp add: cpux_intention_def Let_def)
next
  assume a: "em_cpuxId body = ctx \<and> em_dnInstanceId body = Some d \<and> d \<noteq> []"
  let ?st2 = "st\<lparr>cpuxField := fieldAbsorb now (em_signal body) (cpuxField st),
                 memberStatus := (memberStatus st)(d \<mapsto> ''ready'')\<rparr>"
  obtain n st' e' where p: "executeSequencePass post ctx sq ?st2 e = (n, st', e')"
    by (cases "executeSequencePass post ctx sq ?st2 e") auto
  from a have g: "given (em_dnInstanceId body) = Some d" by (simp add: given_def)
  from a g p have r: "cpux_intention post ctx sq now body st e
               = (Received (length (em_signal body)) n d, st', e')"
    by (simp add: cpux_intention_def Let_def)
  have f: "cpuxField st' = fieldAbsorb now (em_signal body) (cpuxField st)"
    using pass_field [OF p] by simp
  from p r f show "\<exists>n st' e'.
           executeSequencePass post ctx sq ?st2 e = (n, st', e')
           \<and> cpux_intention post ctx sq now body st e
               = (Received (length (em_signal body)) n d, st', e')
           \<and> cpuxField st' = fieldAbsorb now (em_signal body) (cpuxField st)"
    by blast
next
  assume a: "em_cpuxId body = ctx \<and> given (em_dnInstanceId body) = None"
  let ?st2 = "st\<lparr>cpuxField := fieldAbsorb now (em_signal body) (cpuxField st)\<rparr>"
  obtain n st' e' where p: "executeSequencePass post ctx sq ?st2 e = (n, st', e')"
    by (cases "executeSequencePass post ctx sq ?st2 e") auto
  from a p have r: "\<exists>who. cpux_intention post ctx sq now body st e
               = (Received (length (em_signal body)) n who, st', e')"
    by (simp add: cpux_intention_def Let_def)
  have f: "cpuxField st' = fieldAbsorb now (em_signal body) (cpuxField st)"
    using pass_field [OF p] by simp
  from p r f show "\<exists>n st' e' who.
           executeSequencePass post ctx sq ?st2 e = (n, st', e')
           \<and> cpux_intention post ctx sq now body st e
               = (Received (length (em_signal body)) n who, st', e')
           \<and> cpuxField st' = fieldAbsorb now (em_signal body) (cpuxField st)"
    by blast
qed

theorem cpux_intention_spec_witness:
  "cpux_intention acceptAll ''CPUX_2'' [step1, step2] ''t1'' emissionDN1 busyState ()
     = (WrongContext, busyState, ())
   \<and> tvOf (lookup (cpuxField (fst (snd (cpux_intention acceptAll ''CPUX_1'' [step1, step2] ''t1''
        emissionDN1 busyState ()))))) ''personal_detail'' = Some ''Y''"
proof -
  have h1: "em_cpuxId emissionDN1 \<noteq> ''CPUX_2''" by (simp add: emissionDN1_def)
  have h2: "em_cpuxId emissionDN1 = ''CPUX_1'' \<and> em_dnInstanceId emissionDN1 = Some ''CPUX_1:2:DN1''
      \<and> ''CPUX_1:2:DN1'' \<noteq> []" by (simp add: emissionDN1_def)
  have a: "cpux_intention acceptAll ''CPUX_2'' [step1, step2] ''t1'' emissionDN1 busyState ()
     = (WrongContext, busyState, ())"
    using cpux_intention_spec [of emissionDN1 "''CPUX_2''" acceptAll "[step1, step2]" "''t1''"
        busyState "()"] h1 by blast
  have "cpuxField (fst (snd (cpux_intention acceptAll ''CPUX_1'' [step1, step2] ''t1''
        emissionDN1 busyState ()))) = fieldAbsorb ''t1'' (em_signal emissionDN1) (cpuxField busyState)"
    using cpux_intention_spec [of emissionDN1 "''CPUX_1''" acceptAll "[step1, step2]" "''t1''"
        busyState "()" "''CPUX_1:2:DN1''"] h2 by auto
  then have b: "tvOf (lookup (cpuxField (fst (snd (cpux_intention acceptAll ''CPUX_1'' [step1, step2] ''t1''
        emissionDN1 busyState ()))))) ''personal_detail'' = Some ''Y''"
    by (simp add: emissionDN1_def tvOf_fieldAbsorb_last lastNamed_def)
  from a b show ?thesis by simp
qed

section \<open>Properties of the node server\<close>

lemma dn_execute_known:
  "DN_CONTAINERS (p_target body) = Some valve \<Longrightarrow>
   dn_execute body srv =
     (if isRunning srv (requestInstanceId body)
      then (Rejected ''instance_busy'' (requestInstanceId body), srv)
      else if \<not> canProcess valve (p_signal body)
      then (Rejected ''valve_conditions_not_met'' (requestInstanceId body), srv)
      else (Accepted (requestInstanceId body),
            srv\<lparr>activeInstances := (activeInstances srv)(requestInstanceId body \<mapsto>
                    \<lparr>status = ''running'', t_cpuxId = p_cpuxId body, t_dnType = p_target body\<rparr>),
                inFlight := inFlight srv @ [requestInstanceId body]\<rparr>))"
  by (simp add: dn_execute_def Let_def)







lemma canProcess_iff:
  "canProcess valve sig \<longleftrightarrow>
     (\<forall>v \<in> set valve. \<exists>p \<in> set sig. name p = name v \<and> TV p = TV v)"
  by (auto simp: canProcess_def list_all_iff list_ex_iff)

lemma canProcess_filter:
  "canProcess valve (filter (\<lambda>p. name p \<in> name ` set valve) sig) = canProcess valve sig"
  by (auto simp: canProcess_iff)


section \<open>Properties of the enhanced scheduler\<close>

lemma removePulses_entries:
  "entries (removePulses ps fld) m = (if m \<in> name ` set ps then None else entries fld m)"
  by (induction ps arbitrary: fld) auto

lemma removePulses_builtins: "builtins (removePulses ps fld) = builtins fld"
  by (induction ps arbitrary: fld) auto

lemma elookup_removePulses:
  "elookup (removePulses ps fld) m =
     (if m \<in> name ` set ps
      then (if m \<in> set objectPrototypeMembers then builtins fld m else None)
      else elookup fld m)"
  by (simp add: elookup_def removePulses_entries removePulses_builtins split: option.splits)

lemma checkSignalMatch_eq: "checkSignalMatch req fld = fieldMatch fld req"
  by (simp add: checkSignalMatch_def fieldMatch_enhanced_eq)

lemma runCPUX_visit_field:
  assumes "runCPUX_visit post ctx cid now s (n, st, e) = (n', st', e')"
  shows "(n' = n \<and> st' = st)
     \<or> (n' = n + 1 \<and> checkSignalMatch (designTimeSignal s) (elookup (cpuxField st))
        \<and> cpuxField st' = (if consumeSignal s
             then removePulses (designTimeSignal s) (cpuxField st) else cpuxField st))"
  using assms
  by (auto simp: runCPUX_visit_def Let_def split: if_splits prod.splits reply.splits)

section \<open>Overlapping passes\<close>









lemmas sample_defs = started_def step1_def step2_def cleanStep_def startSignal_def required_def
  initializeDNStatus_def instanceIdOf_def stepKey_def accepted_def acceptAll_def
  emissionDN1_def executeDN1_def payloadOf_def signalToSend_def js_or_def
  fieldAbsorb_def spread_def setProp_def emptyObject_def entryOf_def getProp_def

lemma dn1_known: "DN_CONTAINERS (p_target executeDN1) = Some [required ''start_license_request'' ''Y'']"
  by (simp add: DN_CONTAINERS_def sample_defs)

lemma dn1_id: "requestInstanceId executeDN1 = ''CPUX_1:2:DN1''"
  by (simp add: requestInstanceId_def given_def sample_defs)

lemma dn1_signal: "p_signal executeDN1 = [\<lparr>name = ''start_license_request'', TV = ''Y'',
      response = JStr ''initiated'', timestamp = None\<rparr>]"
  by (simp add: sample_defs)




section \<open>The claims about dispatch to the nodes\<close>




text \<open>
  Claim C10. For a request to a known node whose instance is not running, the server
  accepts exactly when every pulse of the node's valve has a pulse of the same name and
  \<^verbatim>\<open>TV\<close> in the signal of the request, whatever else the server's state holds; otherwise
  it answers \<^verbatim>\<open>valve_conditions_not_met\<close>. Dropping from the signal the pulses that the
  valve does not name changes nothing in the answer.
\<close>

theorem valve_decides:
  "DN_CONTAINERS (p_target body) = Some valve \<Longrightarrow>
   \<not> isRunning srv (requestInstanceId body) \<Longrightarrow>
     (fst (dn_execute body srv) = Accepted (requestInstanceId body)
        \<longleftrightarrow> (\<forall>v \<in> set valve. \<exists>p \<in> set (p_signal body). name p = name v \<and> TV p = TV v))
     \<and> (fst (dn_execute body srv) = Accepted (requestInstanceId body)
         \<or> fst (dn_execute body srv)
              = Rejected ''valve_conditions_not_met'' (requestInstanceId body))
     \<and> fst (dn_execute
              (body\<lparr>p_signal := filter (\<lambda>p. name p \<in> name ` set valve) (p_signal body)\<rparr>) srv)
         = fst (dn_execute body srv)"
proof -
  assume k: "DN_CONTAINERS (p_target body) = Some valve"
    and r: "\<not> isRunning srv (requestInstanceId body)"
  let ?body' = "body\<lparr>p_signal := filter (\<lambda>p. name p \<in> name ` set valve) (p_signal body)\<rparr>"
  have k': "DN_CONTAINERS (p_target ?body') = Some valve" using k by simp
  have i': "requestInstanceId ?body' = requestInstanceId body"
    by (simp add: requestInstanceId_def split: option.splits)
  have a: "fst (dn_execute body srv) =
      (if canProcess valve (p_signal body) then Accepted (requestInstanceId body)
       else Rejected ''valve_conditions_not_met'' (requestInstanceId body))"
    using r by (simp add: dn_execute_known [OF k])
  have b: "fst (dn_execute ?body' srv) =
      (if canProcess valve (p_signal body) then Accepted (requestInstanceId body)
       else Rejected ''valve_conditions_not_met'' (requestInstanceId body))"
    using r by (simp add: dn_execute_known [OF k'] i' canProcess_filter)
  from a b show ?thesis by (simp add: canProcess_iff)
qed

theorem valve_decides_witness:
  "fst (dn_execute executeDN1 dn_initial) = Accepted ''CPUX_1:2:DN1''
   \<and> fst (dn_execute (executeDN1\<lparr>p_signal := [required ''personal_detail'' ''Y'']\<rparr>) dn_initial)
       = Rejected ''valve_conditions_not_met'' ''CPUX_1:2:DN1''"
proof -
  have k2: "DN_CONTAINERS (p_target (executeDN1\<lparr>p_signal := [required ''personal_detail'' ''Y'']\<rparr>))
      = Some [required ''start_license_request'' ''Y'']"
    using dn1_known by simp
  have i2: "requestInstanceId (executeDN1\<lparr>p_signal := [required ''personal_detail'' ''Y'']\<rparr>)
      = ''CPUX_1:2:DN1''"
    using dn1_id by (simp add: requestInstanceId_def split: option.splits)
  have r: "\<not> isRunning dn_initial ''CPUX_1:2:DN1''"
    by (simp add: isRunning_def dn_initial_def)
  note s1 = dn1_signal
  have r1: "\<not> isRunning dn_initial (requestInstanceId executeDN1)"
    using r by (simp add: dn1_id)
  have r2: "\<not> isRunning dn_initial
      (requestInstanceId (executeDN1\<lparr>p_signal := [required ''personal_detail'' ''Y'']\<rparr>))"
    unfolding i2 using r .
  from valve_decides [OF dn1_known r1, unfolded dn1_id s1]
  have a: "fst (dn_execute executeDN1 dn_initial) = Accepted ''CPUX_1:2:DN1''"
    by (simp add: required_sel)
  from valve_decides [OF k2 r2, unfolded i2]
  have b: "fst (dn_execute (executeDN1\<lparr>p_signal := [required ''personal_detail'' ''Y'']\<rparr>) dn_initial)
       = Rejected ''valve_conditions_not_met'' ''CPUX_1:2:DN1''"
    by (auto simp: required_sel)
  from a b show ?thesis by simp
qed

section \<open>The claim about consumption in the enhanced scheduler\<close>

lemma runCPUX_visit_count:
  assumes "stepKey_enhanced s \<notin> executionLog st"
    "checkSignalMatch (designTimeSignal s) (elookup (cpuxField st))"
    "memberStatus st (instanceIdOf ctx s) \<noteq> Some ''busy''"
    "memberStatus st (instanceIdOf ctx s) \<noteq> Some ''stopped''"
    "fst (post e (endpoint (targetRegistry_enhanced (target s)) ''/execute'')
         (Execute (payloadOf_enhanced ctx (elookup (cpuxField st)) s))) \<noteq> Threw"
  shows "fst (runCPUX_visit post ctx cid now s (n, st, e)) = n + 1"
  using assms
  by (auto simp: runCPUX_visit_def Let_def split: if_splits prod.splits reply.splits)

text \<open>
  What a visit of \<^verbatim>\<open>runCPUX\<close> that dispatches a step (the request to \<^verbatim>\<open>/execute\<close> returns,
  and the activation is counted) does to the field. With \<^verbatim>\<open>consumeSignal\<close> true the field
  has no entry of its own under a name of the step's precondition afterwards; a
  precondition pulse whose name is not the name of a member that every object inherits
  is no longer in the field; and every other name holds what it held. With
  \<^verbatim>\<open>consumeSignal\<close> false the field is the same, and the precondition still matches it.
  This holds for node targets and for object targets alike.
\<close>

lemma consume_removes_entries:
  "runCPUX_visit post ctx cid now s (n, st, e) = (n', st', e') \<Longrightarrow> n' = n + 1 \<Longrightarrow>
     (consumeSignal s \<longrightarrow>
        (\<forall>p \<in> set (designTimeSignal s). entries (cpuxField st') (name p) = None)
        \<and> (\<forall>p \<in> set (designTimeSignal s). name p \<notin> set objectPrototypeMembers
              \<longrightarrow> elookup (cpuxField st') (name p) = None)
        \<and> (\<forall>m. m \<notin> name ` set (designTimeSignal s)
              \<longrightarrow> elookup (cpuxField st') m = elookup (cpuxField st) m))
     \<and> (\<not> consumeSignal s \<longrightarrow>
        cpuxField st' = cpuxField st
        \<and> checkSignalMatch (designTimeSignal s) (elookup (cpuxField st')))"
  using runCPUX_visit_field [of post ctx cid now s n st e n' st' e']
  by (auto simp: removePulses_entries elookup_removePulses)

lemma consume_removes_sample:
  "elookup (cpuxField (fst (snd (runCPUX_visit acceptAll ''CPUX_1'' ''make_license_cpux'' ''t2''
       enhancedStep4 (0, afterDN1, ()))))) ''personal_detail'' = None
   \<and> elookup (cpuxField (fst (snd (runCPUX_visit acceptAll ''CPUX_1'' ''make_license_cpux'' ''t2''
       enhancedStep4 (0, afterDN1, ()))))) ''start_license_request''
     = elookup (cpuxField afterDN1) ''start_license_request''
   \<and> cpuxField (fst (snd (runCPUX_visit acceptAll ''CPUX_1'' ''make_license_cpux'' ''t2''
       (enhancedStep4\<lparr>consumeSignal := False\<rparr>) (0, afterDN1, ())))) = cpuxField afterDN1"
proof -
  let ?r = "runCPUX_visit acceptAll ''CPUX_1'' ''make_license_cpux'' ''t2'' enhancedStep4 (0, afterDN1, ())"
  let ?q = "runCPUX_visit acceptAll ''CPUX_1'' ''make_license_cpux'' ''t2''
       (enhancedStep4\<lparr>consumeSignal := False\<rparr>) (0, afterDN1, ())"
  have m: "checkSignalMatch (designTimeSignal enhancedStep4) (elookup (cpuxField afterDN1))"
    by (simp add: checkSignalMatch_def enhancedStep4_def afterDN1_def emissionDN1_def required_def
        startSignal_def emptyField_def elookup_def objectPrototypeMembers_def)
  have c: "fst ?r = 0 + 1"
    by (rule runCPUX_visit_count)
       (use m in \<open>simp_all add: enhancedStep4_def afterDN1_def acceptAll_def\<close>)
  have c': "fst ?q = 0 + 1"
    by (rule runCPUX_visit_count)
       (use m in \<open>simp_all add: enhancedStep4_def afterDN1_def acceptAll_def\<close>)
  have er: "?r = (fst ?r, fst (snd ?r), snd (snd ?r))" by (simp add: prod_eq_iff)
  have eq: "?q = (fst ?q, fst (snd ?q), snd (snd ?q))" by (simp add: prod_eq_iff)
  have d: "designTimeSignal enhancedStep4 = [required ''personal_detail'' ''Y'']"
    "consumeSignal enhancedStep4"
    by (simp_all add: enhancedStep4_def)
  from consume_removes_entries [OF er c] d
  have a: "elookup (cpuxField (fst (snd ?r))) ''personal_detail'' = None
     \<and> elookup (cpuxField (fst (snd ?r))) ''start_license_request''
       = elookup (cpuxField afterDN1) ''start_license_request''"
    by (simp add: required_sel objectPrototypeMembers_def)
  from consume_removes_entries [OF eq c']
  have b: "cpuxField (fst (snd ?q)) = cpuxField afterDN1"
    by simp
  from a b show ?thesis by simp
qed


end
